theory Spec2Isabelle
  imports Complex_Main "HOL-Library.Char_ord" "HOL-Library.List_Lexorder"
begin

section \<open>Numbers read from strings\<close>

text \<open>
  The wallet service keeps money as strings (\<open>DECIMAL(20, 2)\<close> columns, string
  fields of the request) and reads them in two ways: with JavaScript's
  \<open>parseFloat\<close> for the guards of \<open>validateTransferRequest\<close> and
  \<open>Wallet.hasAvailableBalance\<close>, and with \<open>new Decimal(...)\<close> of decimal.js
  for the arithmetic of \<open>executeTransfer\<close>.

  A JavaScript number is modelled by the exact rational value of the decimal
  literal that was read (\<open>Num\<close>), by \<open>NaN\<close>, or by an infinity. The
  rounding of the literal to the nearest IEEE double is not modelled: a literal
  that a double cannot tell from zero, from an infinity or from a neighbouring
  literal is compared here by its exact value. The rounding is monotone, it
  keeps zero, the sign and 1000000000, and two different decimals of at most
  15 significant digits never round to the same double; so a literal with two
  decimal places is not positive, or above 1000000000, as a double exactly
  when its value is, and the comparisons that the code makes between an
  amount of two decimal places that is at most 1000000000 and a balance of
  two decimal places come out as they do here. The properties below that
  depend on the value of a number are stated for such strings; the others
  hold whichever way a comparison comes out. Whether a string is read as
  \<open>NaN\<close> does not depend on the rounding.
\<close>

datatype number = NaN | Num rat | PosInfinity | NegInfinity

definition is_digit :: "char \<Rightarrow> bool" where
  "is_digit c = (c \<in> set ''0123456789'')"

definition digit_val :: "char \<Rightarrow> nat" where
  "digit_val c = of_char c - 48"

definition digit_char :: "nat \<Rightarrow> char" where
  "digit_char d = ''0123456789'' ! (d mod 10)"

definition digits_val :: "string \<Rightarrow> nat" where
  "digits_val ds = foldl (\<lambda>n c. 10 * n + digit_val c) 0 ds"

text \<open>A character of a string is a code unit of the JavaScript string, and
  the strings of this theory are those whose code units are below 256. The
  white space that \<open>parseFloat\<close> skips is, among these code units, tab,
  line feed, vertical tab, form feed, carriage return, space and the no-break
  space \<open>U+00A0\<close>; the other white space of JavaScript lies above 255.\<close>

definition is_space :: "char \<Rightarrow> bool" where
  "is_space c = (of_char c \<in> {9, 10, 11, 12, 13, 32, 160 :: nat})"

definition pow10 :: "int \<Rightarrow> rat" where
  "pow10 e = (if 0 \<le> e then 10 ^ nat e else 1 / 10 ^ nat (- e))"

text \<open>The exponent part \<open>[eE][+-]?digits\<close> at the head of a string: the
  exponent and what follows it, or nothing when the head is no exponent part.\<close>

definition unsigned_exponent :: "string \<Rightarrow> (nat \<times> string) option" where
  "unsigned_exponent r =
     (if takeWhile is_digit r = [] then None
      else Some (digits_val (takeWhile is_digit r), dropWhile is_digit r))"

definition exponent_part :: "string \<Rightarrow> (int \<times> string) option" where
  "exponent_part r =
     (case r of
        [] \<Rightarrow> None
      | c # r1 \<Rightarrow>
          if c = CHR ''e'' \<or> c = CHR ''E'' then
            (case r1 of
               [] \<Rightarrow> None
             | x # r2 \<Rightarrow>
                 if x = CHR ''-'' then
                   map_option (\<lambda>(n, rest). (- int n, rest)) (unsigned_exponent r2)
                 else if x = CHR ''+'' then
                   map_option (\<lambda>(n, rest). (int n, rest)) (unsigned_exponent r2)
                 else map_option (\<lambda>(n, rest). (int n, rest)) (unsigned_exponent r1))
          else None)"

text \<open>The unsigned decimal literal at the head of a string: digits with an
  optional fraction, or a fraction alone, then an optional exponent part. The
  result is the coefficient, the power of ten and the rest of the string.\<close>

definition scan_decimal :: "string \<Rightarrow> (nat \<times> int \<times> string) option" where
  "scan_decimal u =
     (let ip = takeWhile is_digit u; r1 = dropWhile is_digit u;
          (fp, r2) = (case r1 of
                        c # r \<Rightarrow> if c = CHR ''.'' \<and> (ip \<noteq> [] \<or> takeWhile is_digit r \<noteq> [])
                                 then (takeWhile is_digit r, dropWhile is_digit r)
                                 else ([], r1)
                      | [] \<Rightarrow> ([], r1))
      in if ip = [] \<and> fp = [] then None
         else (case exponent_part r2 of
                 None \<Rightarrow> Some (digits_val (ip @ fp), - int (length fp), r2)
               | Some (e, r3) \<Rightarrow> Some (digits_val (ip @ fp), e - int (length fp), r3)))"

text \<open>\<open>parseFloat\<close>: leading white space is skipped, then the longest prefix
  that is a signed decimal literal or a signed \<open>Infinity\<close> is read and the
  rest is ignored; without such a prefix the result is \<open>NaN\<close>.\<close>

definition parseFloat :: "string \<Rightarrow> number" where
  "parseFloat s =
     (let t = dropWhile is_space s;
          neg = (case t of c # _ \<Rightarrow> c = CHR ''-'' | [] \<Rightarrow> False);
          u = (case t of c # r \<Rightarrow> if c = CHR ''-'' \<or> c = CHR ''+'' then r else t | [] \<Rightarrow> t)
      in if take 8 u = ''Infinity'' then (if neg then NegInfinity else PosInfinity)
         else (case scan_decimal u of
                 None \<Rightarrow> NaN
               | Some (c, e, _) \<Rightarrow> Num ((if neg then - 1 else 1) * of_nat c * pow10 e)))"

text \<open>The comparisons of JavaScript numbers that the service uses; every
  comparison with \<open>NaN\<close> is false.\<close>

fun num_le :: "number \<Rightarrow> number \<Rightarrow> bool" where
  "num_le NaN _ = False"
| "num_le _ NaN = False"
| "num_le NegInfinity _ = True"
| "num_le _ PosInfinity = True"
| "num_le (Num a) (Num b) = (a \<le> b)"
| "num_le (Num a) NegInfinity = False"
| "num_le PosInfinity (Num b) = False"
| "num_le PosInfinity NegInfinity = False"

definition num_gt :: "number \<Rightarrow> number \<Rightarrow> bool" where
  "num_gt a b = (a \<noteq> NaN \<and> b \<noteq> NaN \<and> \<not> num_le a b)"

definition num_ge :: "number \<Rightarrow> number \<Rightarrow> bool" where
  "num_ge a b = num_le b a"

section \<open>decimal.js\<close>

text \<open>
  A finite \<open>Decimal\<close> is a coefficient \<open>c\<close> and an exponent \<open>n\<close>, for
  the value \<open>c\<close> times ten to the \<open>n\<close>. The constructor
  accepts a string that is, after one optional sign, a decimal literal and
  nothing else (the library's \<open>isDecimal\<close> pattern); for any other string it
  throws. The library's other notations (\<open>Infinity\<close>, \<open>NaN\<close>, the
  prefixed binary, octal and hexadecimal literals) are read by \<open>parseFloat\<close>
  as an infinity, \<open>NaN\<close> or zero, so an amount in one of them never passes
  the guards that stand before the constructor in \<open>executeTransfer\<close>, and
  a balance is a decimal literal as the column gives it; these notations are
  modelled as rejected, and so is a literal with digit separators.

  \<open>plus\<close> and \<open>minus\<close> round their result to the configured precision of 20
  significant digits, \<open>toFixed\<close> rounds to the requested number of decimal
  places; both use the configured rounding mode, which is \<open>ROUND_HALF_UP\<close>
  by default and \<open>ROUND_HALF_EVEN\<close> once the interest service has been
  constructed.
\<close>

datatype rounding = ROUND_HALF_UP | ROUND_HALF_EVEN

type_synonym decimal = "int \<times> int"

definition Decimal :: "string \<Rightarrow> decimal option" where
  "Decimal v =
     (let neg = (case v of c # _ \<Rightarrow> c = CHR ''-'' | [] \<Rightarrow> False);
          u = (case v of c # r \<Rightarrow> if c = CHR ''-'' \<or> c = CHR ''+'' then r else v | [] \<Rightarrow> v)
      in case scan_decimal u of
           Some (c, e, []) \<Rightarrow> Some ((if neg then - int c else int c), e)
         | _ \<Rightarrow> None)"

text \<open>Division of a coefficient by a positive power of ten, rounded to the
  nearest integer, a tie going away from zero or to the even neighbour.\<close>

definition round_div :: "rounding \<Rightarrow> int \<Rightarrow> nat \<Rightarrow> int" where
  "round_div rm c k =
     (let q = \<bar>c\<bar> div int k; r = \<bar>c\<bar> mod int k;
          up = (2 * r > int k \<or> (2 * r = int k \<and> (rm = ROUND_HALF_UP \<or> odd q)))
      in sgn c * (q + (if up then 1 else 0)))"

fun ndigits :: "nat \<Rightarrow> nat" where
  "ndigits n = (if n < 10 then 1 else Suc (ndigits (n div 10)))"

declare ndigits.simps [simp del]

definition finalise :: "rounding \<Rightarrow> nat \<Rightarrow> decimal \<Rightarrow> decimal" where
  "finalise rm sd d =
     (let n = ndigits (nat \<bar>fst d\<bar>)
      in if n \<le> sd then d
         else (round_div rm (fst d) (10 ^ (n - sd)), snd d + int (n - sd)))"

definition precision :: nat where
  "precision = 20"

definition plus :: "rounding \<Rightarrow> decimal \<Rightarrow> decimal \<Rightarrow> decimal" where
  "plus rm x y =
     (let e = min (snd x) (snd y)
      in finalise rm precision
           (fst x * 10 ^ nat (snd x - e) + fst y * 10 ^ nat (snd y - e), e))"

definition minus :: "rounding \<Rightarrow> decimal \<Rightarrow> decimal \<Rightarrow> decimal" where
  "minus rm x y = plus rm x (- fst y, snd y)"

fun show_nat :: "nat \<Rightarrow> string" where
  "show_nat n =
     (if n < 10 then [digit_char n]
      else show_nat (n div 10) @ [digit_char (n mod 10)])"

declare show_nat.simps [simp del]

text \<open>\<open>toFixed(2)\<close>: the value rounded to two decimal places and printed with
  exactly two; the minus sign is that of the value before rounding, when it is
  not zero.\<close>

definition toFixed2 :: "rounding \<Rightarrow> decimal \<Rightarrow> string" where
  "toFixed2 rm d =
     (let q = (if - 2 \<le> snd d then fst d * 10 ^ nat (snd d + 2)
               else round_div rm (fst d) (10 ^ nat (- 2 - snd d)));
          n = nat \<bar>q\<bar>
      in (if fst d < 0 then ''-'' else '''') @ show_nat (n div 100) @ ''.'' @
         [digit_char ((n mod 100) div 10), digit_char (n mod 10)])"

section \<open>Rows, requests and responses\<close>

text \<open>
  The rows of the tables \<open>wallets\<close>, \<open>transaction_logs\<close> and
  \<open>ledger_entries\<close> as the entity classes declare them. A row holds the
  strings that the code writes; what the column types do to a value on the way
  in (the canonical form of a \<open>DECIMAL(20, 2)\<close>, the rejection of a
  malformed one) is the database's and is not modelled. The identifiers that
  Sequelize draws for a new transaction log (\<open>UUIDV4\<close>) are modelled as
  fresh numbers from a counter. The timestamp columns that no function of the
  service reads, the \<open>metadata\<close> column and the identifier of a ledger entry
  are left out.
\<close>

datatype WalletType = POOL | USER | MERCHANT

datatype WalletStatus = ACTIVE | SUSPENDED | CLOSED

record Wallet =
  w_id :: string
  w_ownerId :: string
  w_type :: WalletType
  w_balance :: string
  w_currency :: string
  w_status :: WalletStatus
  w_version :: int

datatype TransactionStatus = PENDING | PROCESSING | COMPLETED | FAILED | ROLLED_BACK

datatype TransactionType = TRANSFER | DEPOSIT | WITHDRAWAL | REFUND

record TransactionLog =
  tl_id :: nat
  tl_idempotencyKey :: string
  tl_type :: TransactionType
  tl_fromWalletId :: string
  tl_toWalletId :: string
  tl_amount :: string
  tl_currency :: string
  tl_status :: TransactionStatus
  tl_description :: "string option"
  tl_errorMessage :: "string option"
  tl_completedAt :: "nat option"
  tl_updatedAt :: nat

datatype LedgerEntryType = DEBIT | CREDIT

record LedgerEntry =
  le_transactionId :: nat
  le_walletId :: string
  le_type :: LedgerEntryType
  le_amount :: string
  le_currency :: string
  le_balanceAfter :: string
  le_description :: string

record TransferDto =
  idempotencyKey :: string
  fromWalletId :: string
  toWalletId :: string
  amount :: string
  currency :: "string option"
  description :: "string option"

record WalletBalance =
  wb_id :: string
  newBalance :: string

record TransferResponseDto =
  success :: bool
  transactionId :: nat
  status :: TransactionStatus
  fromWallet :: WalletBalance
  toWallet :: WalletBalance
  timestamp :: nat

text \<open>The exceptions that the service throws. \<open>InsufficientFunds\<close> is the
  \<open>BadRequestException\<close> whose body is the object with
  \<open>error: 'INSUFFICIENT_FUNDS'\<close> and the details \<open>available\<close> and
  \<open>required\<close>; \<open>DecimalError\<close> is what the \<open>Decimal\<close> constructor
  throws for the argument given.\<close>

datatype exception =
    BadRequestException string
  | InsufficientFunds string string
  | ConflictException string
  | NotFoundException string
  | DecimalError string

fun message :: "exception \<Rightarrow> string" where
  "message (BadRequestException m) = m"
| "message (InsufficientFunds available required) = ''Wallet balance insufficient for transfer''"
| "message (ConflictException m) = m"
| "message (NotFoundException m) = m"
| "message (DecimalError v) = ''[DecimalError] Invalid argument: '' @ v"

section \<open>The database, the Redis store and what the service is given\<close>

text \<open>
  One worker runs at a time. The state is the three tables, the two families
  of Redis keys (\<open>idempotency:K\<close> with the cached response and the instant
  at which it expires, \<open>lock:K\<close> with the instant at which the lease
  expires), the counter of fresh identifiers and the trace of the statements
  and commands sent to the database and to Redis, in order. A cached response
  stands for its JSON text: \<open>JSON.stringify\<close> on the way in and
  \<open>JSON.parse\<close> on the way out are not modelled. Failures of the
  connections are not modelled either.

  The environment of one invocation is the clock, in milliseconds: \<open>now\<close>
  for the Redis commands and the timestamps that Sequelize sets, the two
  readings \<open>new Date()\<close> of \<open>executeTransfer\<close>, and the rounding mode
  that decimal.js is configured with.
\<close>

datatype event =
    REDIS_GET string
  | REDIS_SET_NX string
  | REDIS_SETEX string
  | REDIS_DEL string
  | LOG_FIND_ONE string
  | LOG_INSERT string string
  | LOG_UPDATE nat TransactionStatus
  | TX_BEGIN
  | TX_COMMIT
  | TX_ROLLBACK
  | WALLET_SELECT string
  | WALLET_SELECT_FOR_UPDATE string
  | WALLET_UPDATE string int
  | LEDGER_INSERT nat string LedgerEntryType

record state =
  wallets :: "Wallet list"
  transaction_logs :: "TransactionLog list"
  ledger_entries :: "LedgerEntry list"
  idempotency_cache :: "(string \<times> TransferResponseDto \<times> nat) list"
  locks :: "(string \<times> nat) list"
  next_id :: nat
  trace :: "event list"

record env =
  now :: nat
  completed_date :: nat
  result_date :: nat
  rounding_mode :: rounding

definition emit :: "event \<Rightarrow> state \<Rightarrow> state" where
  "emit ev s = s\<lparr>trace := trace s @ [ev]\<rparr>"

subsection \<open>Redis\<close>

definition redis_get :: "env \<Rightarrow> string \<Rightarrow> state \<Rightarrow> TransferResponseDto option \<times> state" where
  "redis_get e k s =
     ((case map_of (idempotency_cache s) k of
         Some (v, expires) \<Rightarrow> if now e < expires then Some v else None
       | None \<Rightarrow> None),
      emit (REDIS_GET (''idempotency:'' @ k)) s)"

definition redis_setex :: "env \<Rightarrow> string \<Rightarrow> nat \<Rightarrow> TransferResponseDto \<Rightarrow> state \<Rightarrow> state" where
  "redis_setex e k ttl v s =
     emit (REDIS_SETEX (''idempotency:'' @ k))
       (s\<lparr>idempotency_cache :=
            (k, v, now e + ttl * 1000) # filter (\<lambda>p. fst p \<noteq> k) (idempotency_cache s)\<rparr>)"

text \<open>\<open>SET lock:K 1 EX ttl NX\<close>: the key is set when it is absent or has
  expired, and the answer says whether it was set.\<close>

definition redis_set_nx :: "env \<Rightarrow> string \<Rightarrow> nat \<Rightarrow> state \<Rightarrow> bool \<times> state" where
  "redis_set_nx e k ttl s =
     (case map_of (locks s) k of
        Some expires \<Rightarrow>
          if now e < expires then (False, emit (REDIS_SET_NX (''lock:'' @ k)) s)
          else (True, emit (REDIS_SET_NX (''lock:'' @ k))
                  (s\<lparr>locks := (k, now e + ttl * 1000) # filter (\<lambda>p. fst p \<noteq> k) (locks s)\<rparr>))
      | None \<Rightarrow>
          (True, emit (REDIS_SET_NX (''lock:'' @ k))
             (s\<lparr>locks := (k, now e + ttl * 1000) # filter (\<lambda>p. fst p \<noteq> k) (locks s)\<rparr>)))"

definition redis_del :: "string \<Rightarrow> state \<Rightarrow> state" where
  "redis_del k s =
     emit (REDIS_DEL (''lock:'' @ k)) (s\<lparr>locks := filter (\<lambda>p. fst p \<noteq> k) (locks s)\<rparr>)"

subsection \<open>The tables\<close>

definition log_findOne :: "string \<Rightarrow> state \<Rightarrow> TransactionLog option \<times> state" where
  "log_findOne k s =
     (find (\<lambda>r. tl_idempotencyKey r = k) (transaction_logs s), emit (LOG_FIND_ONE k) s)"

text \<open>\<open>transactionLogModel.create\<close>: the insert fails on the unique index
  of \<open>idempotency_key\<close> (the result \<open>None\<close> stands for
  \<open>SequelizeUniqueConstraintError\<close>), otherwise the new row is returned.\<close>

definition log_create :: "env \<Rightarrow> TransactionLog \<Rightarrow> state \<Rightarrow> TransactionLog option \<times> state" where
  "log_create e r s =
     (let s1 = emit (LOG_INSERT (tl_idempotencyKey r) (tl_amount r)) s
      in if \<exists>x \<in> set (transaction_logs s). tl_idempotencyKey x = tl_idempotencyKey r
         then (None, s1)
         else (let row = r\<lparr>tl_id := next_id s, tl_updatedAt := now e\<rparr>
               in (Some row,
                   s1\<lparr>transaction_logs := transaction_logs s @ [row],
                      next_id := Suc (next_id s)\<rparr>)))"

text \<open>\<open>instance.update\<close> of a transaction log: the row of that identifier
  takes the new status and the other values given.\<close>

definition log_update ::
  "env \<Rightarrow> nat \<Rightarrow> TransactionStatus \<Rightarrow> (TransactionLog \<Rightarrow> TransactionLog) \<Rightarrow> state \<Rightarrow> state" where
  "log_update e i st f s =
     emit (LOG_UPDATE i st)
       (s\<lparr>transaction_logs :=
            map (\<lambda>r. if tl_id r = i then (f r)\<lparr>tl_status := st, tl_updatedAt := now e\<rparr> else r)
              (transaction_logs s)\<rparr>)"

definition wallet_findByPk :: "bool \<Rightarrow> string \<Rightarrow> state \<Rightarrow> Wallet option \<times> state" where
  "wallet_findByPk for_update i s =
     (find (\<lambda>w. w_id w = i) (wallets s),
      emit (if for_update then WALLET_SELECT_FOR_UPDATE i else WALLET_SELECT i) s)"

text \<open>\<open>walletModel.update({balance, version}, {where: {id, version}})\<close>: the
  rows of that identifier and that version take the new balance and the new
  version; the answer is the number of rows affected.\<close>

definition wallet_update :: "string \<Rightarrow> int \<Rightarrow> string \<Rightarrow> int \<Rightarrow> state \<Rightarrow> nat \<times> state" where
  "wallet_update i expected b v s =
     (length (filter (\<lambda>w. w_id w = i \<and> w_version w = expected) (wallets s)),
      emit (WALLET_UPDATE i expected)
        (s\<lparr>wallets :=
             map (\<lambda>w. if w_id w = i \<and> w_version w = expected
                       then w\<lparr>w_balance := b, w_version := v\<rparr> else w)
               (wallets s)\<rparr>))"

definition ledger_create :: "LedgerEntry \<Rightarrow> state \<Rightarrow> state" where
  "ledger_create r s =
     emit (LEDGER_INSERT (le_transactionId r) (le_walletId r) (le_type r))
       (s\<lparr>ledger_entries := ledger_entries s @ [r]\<rparr>)"

section \<open>The wallet service\<close>

subsection \<open>Helper methods of the entities\<close>

definition isActive :: "Wallet \<Rightarrow> bool" where
  "isActive w = (w_status w = ACTIVE)"

definition hasAvailableBalance :: "Wallet \<Rightarrow> string \<Rightarrow> bool" where
  "hasAvailableBalance w amt = num_ge (parseFloat (w_balance w)) (parseFloat amt)"

definition isCompleted :: "TransactionLog \<Rightarrow> bool" where
  "isCompleted r = (tl_status r = COMPLETED)"

text \<open>JavaScript's \<open>a || b\<close> on a string that may be undefined: the empty
  string and undefined give \<open>b\<close>.\<close>

definition str_or :: "string \<Rightarrow> string \<Rightarrow> string" where
  "str_or a b = (if a = [] then b else a)"

definition opt_or :: "string option \<Rightarrow> string \<Rightarrow> string" where
  "opt_or a b = (case a of None \<Rightarrow> b | Some x \<Rightarrow> str_or x b)"

subsection \<open>validateTransferRequest\<close>

definition validateTransferRequest :: "TransferDto \<Rightarrow> exception option" where
  "validateTransferRequest dto =
     (if fromWalletId dto = toWalletId dto
      then Some (BadRequestException ''Cannot transfer to the same wallet'')
      else if num_le (parseFloat (amount dto)) (Num 0)
      then Some (BadRequestException ''Amount must be greater than 0'')
      else if num_gt (parseFloat (amount dto)) (Num 1000000000)
      then Some (BadRequestException ''Amount exceeds maximum allowed value'')
      else None)"

subsection \<open>getCachedResult and checkIdempotency\<close>

definition getCachedResult ::
  "TransactionLog \<Rightarrow> state \<Rightarrow> (exception + TransferResponseDto) \<times> state" where
  "getCachedResult t s =
     (let (fromW, s1) = wallet_findByPk False (tl_fromWalletId t) s;
          (toW, s2) = wallet_findByPk False (tl_toWalletId t) s1
      in case fromW of
           None \<Rightarrow> (Inl (NotFoundException ''Source wallet not found''), s2)
         | Some fw \<Rightarrow>
             (case toW of
                None \<Rightarrow> (Inl (NotFoundException ''Destination wallet not found''), s2)
              | Some tw \<Rightarrow>
                  if \<not> isActive fw
                  then (Inl (BadRequestException ''Source wallet is not active''), s2)
                  else if \<not> isActive tw
                  then (Inl (BadRequestException ''Destination wallet is not active''), s2)
                  else (Inr \<lparr>success = True,
                             transactionId = tl_id t,
                             status = tl_status t,
                             fromWallet = \<lparr>wb_id = w_id fw, newBalance = w_balance fw\<rparr>,
                             toWallet = \<lparr>wb_id = w_id tw, newBalance = w_balance tw\<rparr>,
                             timestamp = (case tl_completedAt t of
                                            Some d \<Rightarrow> d
                                          | None \<Rightarrow> tl_updatedAt t)\<rparr>,
                        s2)))"

definition checkIdempotency ::
  "env \<Rightarrow> string \<Rightarrow> state \<Rightarrow> (exception + TransferResponseDto option) \<times> state" where
  "checkIdempotency e k s =
     (case redis_get e k s of
        (Some cached, s1) \<Rightarrow> (Inr (Some cached), s1)
      | (None, s1) \<Rightarrow>
          (case log_findOne k s1 of
             (Some t, s2) \<Rightarrow>
               if isCompleted t
               then (case getCachedResult t s2 of
                       (Inl err, s3) \<Rightarrow> (Inl err, s3)
                     | (Inr r, s3) \<Rightarrow> (Inr (Some r), s3))
               else (Inr None, s2)
           | (None, s2) \<Rightarrow> (Inr None, s2)))"

subsection \<open>The lease and the result cache\<close>

definition IDEMPOTENCY_TTL :: nat where
  "IDEMPOTENCY_TTL = 24 * 60 * 60"

definition acquireLock :: "env \<Rightarrow> string \<Rightarrow> state \<Rightarrow> bool \<times> state" where
  "acquireLock e k s = redis_set_nx e k 30 s"

definition releaseLock :: "string \<Rightarrow> state \<Rightarrow> state" where
  "releaseLock k s = redis_del k s"

definition cacheResult :: "env \<Rightarrow> string \<Rightarrow> TransferResponseDto \<Rightarrow> state \<Rightarrow> state" where
  "cacheResult e k result s = redis_setex e k IDEMPOTENCY_TTL result s"

subsection \<open>createTransactionLog\<close>

text \<open>When the insert fails on the unique index, the existing row is read
  again. If it is completed and \<open>getCachedResult\<close> gives a response for it,
  the method returns the existing row (its return type is the row, not the
  response); an exception of \<open>getCachedResult\<close> leaves the method as it
  is.\<close>

definition createTransactionLog ::
  "env \<Rightarrow> string \<Rightarrow> string \<Rightarrow> string \<Rightarrow> string \<Rightarrow> string \<Rightarrow> string option \<Rightarrow> TransactionType
     \<Rightarrow> state \<Rightarrow> (exception + TransactionLog) \<times> state" where
  "createTransactionLog e k fromId toId amt cur descr ty s =
     (case log_create e
             \<lparr>tl_id = 0, tl_idempotencyKey = k, tl_type = ty, tl_fromWalletId = fromId,
              tl_toWalletId = toId, tl_amount = amt, tl_currency = cur, tl_status = PENDING,
              tl_description = descr, tl_errorMessage = None, tl_completedAt = None,
              tl_updatedAt = 0\<rparr> s of
        (Some row, s1) \<Rightarrow> (Inr row, s1)
      | (None, s1) \<Rightarrow>
          (case log_findOne k s1 of
             (Some existing, s2) \<Rightarrow>
               if isCompleted existing
               then (case getCachedResult existing s2 of
                       (Inl err, s3) \<Rightarrow> (Inl err, s3)
                     | (Inr cachedResult, s3) \<Rightarrow> (Inr existing, s3))
               else (Inl (ConflictException
                       ''Transaction with this idempotency key is already being processed''), s2)
           | (None, s2) \<Rightarrow>
               (Inl (ConflictException
                  ''Transaction with this idempotency key is already being processed''), s2)))"

subsection \<open>createLedgerEntries\<close>

definition createLedgerEntries ::
  "nat \<Rightarrow> string \<Rightarrow> string \<Rightarrow> string \<Rightarrow> string \<Rightarrow> string \<Rightarrow> string \<Rightarrow> string \<Rightarrow> state \<Rightarrow> state" where
  "createLedgerEntries txId fromId toId amt cur fromBalanceAfter toBalanceAfter descr s =
     (let s1 = ledger_create
                 \<lparr>le_transactionId = txId, le_walletId = fromId, le_type = DEBIT,
                  le_amount = amt, le_currency = cur, le_balanceAfter = fromBalanceAfter,
                  le_description = str_or descr ''Transfer out''\<rparr> s
      in ledger_create
           \<lparr>le_transactionId = txId, le_walletId = toId, le_type = CREDIT,
            le_amount = amt, le_currency = cur, le_balanceAfter = toBalanceAfter,
            le_description = str_or descr []\<rparr> s1)"

subsection \<open>executeTransfer\<close>

text \<open>The callback of \<open>executeTransfer\<close> from the computation of the new
  balances to its end (the two versioned updates, the check of the rows
  affected, the ledger entries, the completion of the log and the response),
  for the two wallet rows that were read under the lock.\<close>

definition executeTransfer_update ::
  "env \<Rightarrow> TransactionLog \<Rightarrow> TransferDto \<Rightarrow> Wallet \<Rightarrow> Wallet \<Rightarrow> state
     \<Rightarrow> (exception + TransferResponseDto) \<times> state" where
  "executeTransfer_update e transactionLog dto fw tw s =
     (case Decimal (amount dto) of
        None \<Rightarrow> (Inl (DecimalError (amount dto)), s)
      | Some amountDecimal \<Rightarrow>
     (case Decimal (w_balance fw) of
        None \<Rightarrow> (Inl (DecimalError (w_balance fw)), s)
      | Some fromBalanceDecimal \<Rightarrow>
     (case Decimal (w_balance tw) of
        None \<Rightarrow> (Inl (DecimalError (w_balance tw)), s)
      | Some toBalanceDecimal \<Rightarrow>
          (let newFromBalance =
                 toFixed2 (rounding_mode e) (minus (rounding_mode e) fromBalanceDecimal amountDecimal);
               newToBalance =
                 toFixed2 (rounding_mode e) (plus (rounding_mode e) toBalanceDecimal amountDecimal);
               (fromUpdated, s1) =
                 wallet_update (w_id fw) (w_version fw) newFromBalance (w_version fw + 1) s;
               (toUpdated, s2) =
                 wallet_update (w_id tw) (w_version tw) newToBalance (w_version tw + 1) s1
           in if fromUpdated = 0 \<or> toUpdated = 0
              then (Inl (ConflictException
                      ''Wallet was modified by another transaction. Please retry.''), s2)
              else (let s3 = createLedgerEntries (tl_id transactionLog) (w_id fw) (w_id tw) (amount dto)
                               (opt_or (currency dto) ''NGN'') newFromBalance newToBalance
                               (opt_or (description dto) []) s2;
                        s4 = log_update e (tl_id transactionLog) COMPLETED
                               (\<lambda>r. r\<lparr>tl_completedAt := Some (completed_date e)\<rparr>) s3
                    in (Inr \<lparr>success = True,
                             transactionId = tl_id transactionLog,
                             status = COMPLETED,
                             fromWallet = \<lparr>wb_id = w_id fw, newBalance = newFromBalance\<rparr>,
                             toWallet = \<lparr>wb_id = w_id tw, newBalance = newToBalance\<rparr>,
                             timestamp = result_date e\<rparr>,
                        s4))))))"

text \<open>The callback from its start: the log goes to \<open>PROCESSING\<close>, the
  source row is read under \<open>FOR UPDATE\<close> and checked, then the destination
  row, then the balance (the source states that check twice).\<close>

definition executeTransfer_callback ::
  "env \<Rightarrow> TransactionLog \<Rightarrow> TransferDto \<Rightarrow> state
     \<Rightarrow> (exception + TransferResponseDto) \<times> state" where
  "executeTransfer_callback e transactionLog dto s =
     (let s1 = log_update e (tl_id transactionLog) PROCESSING (\<lambda>r. r) s;
          (fromW, s2) = wallet_findByPk True (fromWalletId dto) s1
      in case fromW of
           None \<Rightarrow> (Inl (NotFoundException ''Source wallet not found''), s2)
         | Some fw \<Rightarrow>
             if \<not> isActive fw
             then (Inl (BadRequestException ''Source wallet is not active''), s2)
             else (let (toW, s3) = wallet_findByPk True (toWalletId dto) s2
                   in case toW of
                        None \<Rightarrow> (Inl (NotFoundException ''Destination wallet not found''), s3)
                      | Some tw \<Rightarrow>
                          if \<not> isActive tw
                          then (Inl (BadRequestException ''Destination wallet is not active''), s3)
                          else if \<not> hasAvailableBalance fw (amount dto)
                          then (Inl (InsufficientFunds (w_balance fw) (amount dto)), s3)
                          else if \<not> hasAvailableBalance fw (amount dto)
                          then (Inl (InsufficientFunds (w_balance fw) (amount dto)), s3)
                          else executeTransfer_update e transactionLog dto fw tw s3))"

text \<open>The managed transaction of Sequelize: when the callback throws, the
  three tables are as they were when the transaction began; otherwise the
  transaction commits.\<close>

definition executeTransfer ::
  "env \<Rightarrow> TransactionLog \<Rightarrow> TransferDto \<Rightarrow> state
     \<Rightarrow> (exception + TransferResponseDto) \<times> state" where
  "executeTransfer e transactionLog dto s =
     (case executeTransfer_callback e transactionLog dto (emit TX_BEGIN s) of
        (Inl err, s1) \<Rightarrow>
          (Inl err,
           emit TX_ROLLBACK
             (s1\<lparr>wallets := wallets s, transaction_logs := transaction_logs s,
                 ledger_entries := ledger_entries s\<rparr>))
      | (Inr result, s1) \<Rightarrow> (Inr result, emit TX_COMMIT s1))"

subsection \<open>transfer\<close>

text \<open>\<open>transfer\<close> from the acquisition of the lease to its end: what runs
  once \<open>checkIdempotency\<close> has returned nothing and the validation has
  passed.\<close>

definition transfer_protocol ::
  "env \<Rightarrow> TransferDto \<Rightarrow> state \<Rightarrow> (exception + TransferResponseDto) \<times> state" where
  "transfer_protocol e dto s =
     (case acquireLock e (idempotencyKey dto) s of
        (False, s1) \<Rightarrow>
          (Inl (ConflictException
             ''Another request with the same idempotency key is being processed''), s1)
      | (True, s1) \<Rightarrow>
          (let (r, s5) =
                 (case createTransactionLog e (idempotencyKey dto) (fromWalletId dto)
                         (toWalletId dto) (amount dto) (opt_or (currency dto) ''NGN'')
                         (description dto) TRANSFER s1 of
                    (Inl err, s2) \<Rightarrow> (Inl err, s2)
                  | (Inr transactionLog, s2) \<Rightarrow>
                      (case executeTransfer e transactionLog dto s2 of
                         (Inl err, s3) \<Rightarrow>
                           (Inl err,
                            log_update e (tl_id transactionLog) FAILED
                              (\<lambda>r. r\<lparr>tl_errorMessage := Some (message err)\<rparr>) s3)
                       | (Inr result, s3) \<Rightarrow>
                           (Inr result, cacheResult e (idempotencyKey dto) result s3)))
           in (r, releaseLock (idempotencyKey dto) s5)))"

definition transfer ::
  "env \<Rightarrow> TransferDto \<Rightarrow> state \<Rightarrow> (exception + TransferResponseDto) \<times> state" where
  "transfer e dto s =
     (case checkIdempotency e (idempotencyKey dto) s of
        (Inl err, s1) \<Rightarrow> (Inl err, s1)
      | (Inr (Some cachedResult), s1) \<Rightarrow> (Inr cachedResult, s1)
      | (Inr None, s1) \<Rightarrow>
          (case validateTransferRequest dto of
             Some err \<Rightarrow> (Inl err, s1)
           | None \<Rightarrow> transfer_protocol e dto s1))"

section \<open>The vocabulary of the properties\<close>

text \<open>
  A money string is what a \<open>DECIMAL(20, 2)\<close> column gives back for a
  value that is not negative: digits, a point and exactly two digits. Its value
  in hundredths is \<open>cents\<close>, read off the digits alone; \<open>money_str\<close>
  writes the money string of a number of hundredths. These three say what an
  exact value at scale 2 is, independently of \<open>parseFloat\<close> and of
  decimal.js.
\<close>

definition is_money :: "string \<Rightarrow> bool" where
  "is_money s =
     (4 \<le> length s \<and> s ! (length s - 3) = CHR ''.'' \<and>
      list_all is_digit (take (length s - 3) s) \<and> list_all is_digit (drop (length s - 2) s))"

definition cents :: "string \<Rightarrow> nat" where
  "cents s = digits_val (take (length s - 3) s @ drop (length s - 2) s)"

definition money_str :: "nat \<Rightarrow> string" where
  "money_str n = show_nat (n div 100) @ CHR ''.'' # [digit_char ((n mod 100) div 10), digit_char (n mod 10)]"

text \<open>The wallet rows that a trace locks (\<open>SELECT ... FOR UPDATE\<close>), in the
  order in which it locks them.\<close>

fun locked_ids :: "event list \<Rightarrow> string list" where
  "locked_ids [] = []"
| "locked_ids (WALLET_SELECT_FOR_UPDATE i # tr) = i # locked_ids tr"
| "locked_ids (ev # tr) = locked_ids tr"

text \<open>The same request sent again and again, once at each of the given
  times: the results in order, and the state that is left.\<close>

fun transfer_n ::
  "env list \<Rightarrow> TransferDto \<Rightarrow> state \<Rightarrow> (exception + TransferResponseDto) list \<times> state" where
  "transfer_n [] dto s = ([], s)"
| "transfer_n (e # es) dto s =
     (let (r, s1) = transfer e dto s; (rs, s2) = transfer_n es dto s1 in (r # rs, s2))"

text \<open>The invariant of the ledger: a completed transaction log has exactly
  two ledger entries, first the debit on its source wallet and then the credit
  on its destination wallet, both with its amount and its currency.\<close>

definition completed_has_pair :: "state \<Rightarrow> TransactionLog \<Rightarrow> bool" where
  "completed_has_pair s t =
     (case filter (\<lambda>l. le_transactionId l = tl_id t) (ledger_entries s) of
        [d, c] \<Rightarrow>
          le_type d = DEBIT \<and> le_walletId d = tl_fromWalletId t \<and>
          le_type c = CREDIT \<and> le_walletId c = tl_toWalletId t \<and>
          le_amount d = tl_amount t \<and> le_amount c = tl_amount t \<and>
          le_currency d = tl_currency t \<and> le_currency c = tl_currency t
      | _ \<Rightarrow> False)"

definition ledger_invariant :: "state \<Rightarrow> bool" where
  "ledger_invariant s =
     (\<forall>t \<in> set (transaction_logs s). tl_status t = COMPLETED \<longrightarrow> completed_has_pair s t)"



text \<open>Identifiers already in the tables are below the counter of fresh
  identifiers.\<close>

definition ids_below_counter :: "state \<Rightarrow> bool" where
  "ids_below_counter s =
     ((\<forall>t \<in> set (transaction_logs s). tl_id t < next_id s) \<and>
      (\<forall>l \<in> set (ledger_entries s). le_transactionId l < next_id s))"

text \<open>A database before any transfer has completed: no ledger entry, no
  completed log. From such a state, \<open>run\<close> makes the given invocations of
  \<open>transfer\<close> one after the other.\<close>

definition initial :: "state \<Rightarrow> bool" where
  "initial s =
     (ledger_entries s = [] \<and>
      list_all (\<lambda>t. tl_status t \<noteq> COMPLETED \<and> tl_id t < next_id s) (transaction_logs s))"

fun run :: "(env \<times> TransferDto) list \<Rightarrow> state \<Rightarrow> state" where
  "run [] s = s"
| "run (c # cs) s = run cs (snd (transfer (fst c) (snd c) s))"

section \<open>Intermediate states of one invocation\<close>

text \<open>Names for the states that an invocation of \<open>transfer\<close> passes
  through, used to state what it does step by step: the state in which the
  callback of \<open>executeTransfer\<close> has read both wallet rows, the row that
  \<open>createTransactionLog\<close> inserts for a new key, and the state after the
  lease was taken and that row inserted.\<close>

definition locked_state :: "env \<Rightarrow> TransactionLog \<Rightarrow> TransferDto \<Rightarrow> state \<Rightarrow> state" where
  "locked_state e t dto s =
     emit (WALLET_SELECT_FOR_UPDATE (toWalletId dto))
       (emit (WALLET_SELECT_FOR_UPDATE (fromWalletId dto))
          (log_update e (tl_id t) PROCESSING (\<lambda>r. r) (emit TX_BEGIN s)))"

definition pending_row :: "env \<Rightarrow> TransferDto \<Rightarrow> state \<Rightarrow> TransactionLog" where
  "pending_row e dto s =
     \<lparr>tl_id = next_id s, tl_idempotencyKey = idempotencyKey dto, tl_type = TRANSFER,
      tl_fromWalletId = fromWalletId dto, tl_toWalletId = toWalletId dto,
      tl_amount = amount dto, tl_currency = opt_or (currency dto) ''NGN'',
      tl_status = PENDING, tl_description = description dto, tl_errorMessage = None,
      tl_completedAt = None, tl_updatedAt = now e\<rparr>"

definition intent_state :: "env \<Rightarrow> TransferDto \<Rightarrow> state \<Rightarrow> state" where
  "intent_state e dto s =
     emit (LOG_INSERT (idempotencyKey dto) (amount dto))
       ((snd (acquireLock e (idempotencyKey dto) s))
          \<lparr>transaction_logs := transaction_logs s @ [pending_row e dto s],
           next_id := Suc (next_id s)\<rparr>)"

text \<open>The two versioned updates of \<open>executeTransfer\<close> as functions on a
  wallet row, the two ledger entries that it appends, and the balances that it
  computes.\<close>

definition bump :: "string \<Rightarrow> int \<Rightarrow> string \<Rightarrow> Wallet \<Rightarrow> Wallet" where
  "bump i v b w =
     (if w_id w = i \<and> w_version w = v then w\<lparr>w_balance := b, w_version := v + 1\<rparr> else w)"

definition new_from_balance :: "env \<Rightarrow> TransferDto \<Rightarrow> Wallet \<Rightarrow> string" where
  "new_from_balance e dto fw =
     toFixed2 (rounding_mode e)
       (minus (rounding_mode e) (the (Decimal (w_balance fw))) (the (Decimal (amount dto))))"

definition new_to_balance :: "env \<Rightarrow> TransferDto \<Rightarrow> Wallet \<Rightarrow> string" where
  "new_to_balance e dto tw =
     toFixed2 (rounding_mode e)
       (plus (rounding_mode e) (the (Decimal (w_balance tw))) (the (Decimal (amount dto))))"

definition debit_entry :: "nat \<Rightarrow> TransferDto \<Rightarrow> string \<Rightarrow> string \<Rightarrow> LedgerEntry" where
  "debit_entry x dto i b =
     \<lparr>le_transactionId = x, le_walletId = i, le_type = DEBIT, le_amount = amount dto,
      le_currency = opt_or (currency dto) ''NGN'', le_balanceAfter = b,
      le_description = str_or (opt_or (description dto) []) ''Transfer out''\<rparr>"

definition credit_entry :: "nat \<Rightarrow> TransferDto \<Rightarrow> string \<Rightarrow> string \<Rightarrow> LedgerEntry" where
  "credit_entry x dto i b =
     \<lparr>le_transactionId = x, le_walletId = i, le_type = CREDIT, le_amount = amount dto,
      le_currency = opt_or (currency dto) ''NGN'', le_balanceAfter = b,
      le_description = str_or (opt_or (description dto) []) []\<rparr>"

definition set_status ::
  "env \<Rightarrow> nat \<Rightarrow> TransactionStatus \<Rightarrow> (TransactionLog \<Rightarrow> TransactionLog)
     \<Rightarrow> TransactionLog \<Rightarrow> TransactionLog" where
  "set_status e i st f r =
     (if tl_id r = i then (f r)\<lparr>tl_status := st, tl_updatedAt := now e\<rparr> else r)"

section \<open>An example database\<close>

text \<open>The first scenario of the specification: wallet \<open>A\<close> holds 1000.00,
  wallet \<open>B\<close> holds 500.00, there is no transaction log, no ledger entry and
  nothing in Redis.\<close>

definition wallet_A :: Wallet where
  "wallet_A = \<lparr>w_id = ''A'', w_ownerId = ''USER_1'', w_type = USER, w_balance = ''1000.00'',
               w_currency = ''NGN'', w_status = ACTIVE, w_version = 1\<rparr>"

definition wallet_B :: Wallet where
  "wallet_B = \<lparr>w_id = ''B'', w_ownerId = ''USER_2'', w_type = USER, w_balance = ''500.00'',
               w_currency = ''NGN'', w_status = ACTIVE, w_version = 1\<rparr>"

definition state0 :: state where
  "state0 = \<lparr>wallets = [wallet_A, wallet_B], transaction_logs = [], ledger_entries = [],
             idempotency_cache = [], locks = [], next_id = 0, trace = []\<rparr>"

definition env0 :: env where
  "env0 = \<lparr>now = 1000, completed_date = 1001, result_date = 1002,
           rounding_mode = ROUND_HALF_UP\<rparr>"

definition request :: "string \<Rightarrow> string \<Rightarrow> string \<Rightarrow> string \<Rightarrow> TransferDto" where
  "request k f t a =
     \<lparr>idempotencyKey = k, fromWalletId = f, toWalletId = t, amount = a,
      currency = None, description = None\<rparr>"

text \<open>The example database after the transfer \<open>t1\<close> of 100.00 from \<open>A\<close>
  to \<open>B\<close> has completed at the times of \<open>env0\<close>.\<close>

definition completed_row :: TransactionLog where
  "completed_row =
     \<lparr>tl_id = 0, tl_idempotencyKey = ''t1'', tl_type = TRANSFER, tl_fromWalletId = ''A'',
      tl_toWalletId = ''B'', tl_amount = ''100.00'', tl_currency = ''NGN'',
      tl_status = COMPLETED, tl_description = None, tl_errorMessage = None,
      tl_completedAt = Some 1001, tl_updatedAt = 1000\<rparr>"

definition result1 :: TransferResponseDto where
  "result1 =
     \<lparr>success = True, transactionId = 0, status = COMPLETED,
      fromWallet = \<lparr>wb_id = ''A'', newBalance = ''900.00''\<rparr>,
      toWallet = \<lparr>wb_id = ''B'', newBalance = ''600.00''\<rparr>,
      timestamp = 1002\<rparr>"

definition state1 :: state where
  "state1 =
     \<lparr>wallets = [wallet_A\<lparr>w_balance := ''900.00'', w_version := 2\<rparr>,
                 wallet_B\<lparr>w_balance := ''600.00'', w_version := 2\<rparr>],
      transaction_logs = [completed_row],
      ledger_entries =
        [\<lparr>le_transactionId = 0, le_walletId = ''A'', le_type = DEBIT, le_amount = ''100.00'',
          le_currency = ''NGN'', le_balanceAfter = ''900.00'', le_description = ''Transfer out''\<rparr>,
         \<lparr>le_transactionId = 0, le_walletId = ''B'', le_type = CREDIT, le_amount = ''100.00'',
          le_currency = ''NGN'', le_balanceAfter = ''600.00'', le_description = []\<rparr>],
      idempotency_cache = [(''t1'', result1, 86401000)],
      locks = [],
      next_id = 1,
      trace =
        [REDIS_GET ''idempotency:t1'', LOG_FIND_ONE ''t1'', REDIS_SET_NX ''lock:t1'',
         LOG_INSERT ''t1'' ''100.00'', TX_BEGIN, LOG_UPDATE 0 PROCESSING,
         WALLET_SELECT_FOR_UPDATE ''A'', WALLET_SELECT_FOR_UPDATE ''B'',
         WALLET_UPDATE ''A'' 1, WALLET_UPDATE ''B'' 1, LEDGER_INSERT 0 ''A'' DEBIT,
         LEDGER_INSERT 0 ''B'' CREDIT, LOG_UPDATE 0 COMPLETED, TX_COMMIT,
         REDIS_SETEX ''idempotency:t1'', REDIS_DEL ''lock:t1'']\<rparr>"

section \<open>Effects of the operations on the state\<close>

text \<open>What each operation returns and what it leaves in each component of
  the state, as rewrite rules; the proofs below run the service on a symbolic
  state with them.\<close>

lemma emit_fields [simp]:
  "wallets (emit ev s) = wallets s"
  "transaction_logs (emit ev s) = transaction_logs s"
  "ledger_entries (emit ev s) = ledger_entries s"
  "idempotency_cache (emit ev s) = idempotency_cache s"
  "locks (emit ev s) = locks s"
  "next_id (emit ev s) = next_id s"
  "trace (emit ev s) = trace s @ [ev]"
  by (simp_all add: emit_def)

lemma redis_get_simps [simp]:
  "snd (redis_get e k s) = emit (REDIS_GET (''idempotency:'' @ k)) s"
  "fst (redis_get e k (emit ev s)) = fst (redis_get e k s)"
  by (simp_all add: redis_get_def)

lemma log_findOne_simps [simp]:
  "snd (log_findOne k s) = emit (LOG_FIND_ONE k) s"
  "fst (log_findOne k s) = find (\<lambda>r. tl_idempotencyKey r = k) (transaction_logs s)"
  by (simp_all add: log_findOne_def)

lemma wallet_findByPk_simps [simp]:
  "snd (wallet_findByPk b i s) =
     emit (if b then WALLET_SELECT_FOR_UPDATE i else WALLET_SELECT i) s"
  "fst (wallet_findByPk b i s) = find (\<lambda>w. w_id w = i) (wallets s)"
  by (simp_all add: wallet_findByPk_def)

lemma redis_setex_fields [simp]:
  "wallets (redis_setex e k ttl v s) = wallets s"
  "transaction_logs (redis_setex e k ttl v s) = transaction_logs s"
  "ledger_entries (redis_setex e k ttl v s) = ledger_entries s"
  "idempotency_cache (redis_setex e k ttl v s) =
     (k, v, now e + ttl * 1000) # filter (\<lambda>p. fst p \<noteq> k) (idempotency_cache s)"
  "locks (redis_setex e k ttl v s) = locks s"
  "next_id (redis_setex e k ttl v s) = next_id s"
  "trace (redis_setex e k ttl v s) = trace s @ [REDIS_SETEX (''idempotency:'' @ k)]"
  by (simp_all add: redis_setex_def)

lemma redis_set_nx_fields [simp]:
  "wallets (snd (redis_set_nx e k ttl s)) = wallets s"
  "transaction_logs (snd (redis_set_nx e k ttl s)) = transaction_logs s"
  "ledger_entries (snd (redis_set_nx e k ttl s)) = ledger_entries s"
  "idempotency_cache (snd (redis_set_nx e k ttl s)) = idempotency_cache s"
  "next_id (snd (redis_set_nx e k ttl s)) = next_id s"
  "trace (snd (redis_set_nx e k ttl s)) = trace s @ [REDIS_SET_NX (''lock:'' @ k)]"
  "fst (redis_set_nx e k ttl (emit ev s)) = fst (redis_set_nx e k ttl s)"
  by (simp_all add: redis_set_nx_def split: option.splits)

lemma redis_del_fields [simp]:
  "wallets (redis_del k s) = wallets s"
  "transaction_logs (redis_del k s) = transaction_logs s"
  "ledger_entries (redis_del k s) = ledger_entries s"
  "idempotency_cache (redis_del k s) = idempotency_cache s"
  "locks (redis_del k s) = filter (\<lambda>p. fst p \<noteq> k) (locks s)"
  "next_id (redis_del k s) = next_id s"
  "trace (redis_del k s) = trace s @ [REDIS_DEL (''lock:'' @ k)]"
  by (simp_all add: redis_del_def)

lemma log_update_fields [simp]:
  "wallets (log_update e i st f s) = wallets s"
  "transaction_logs (log_update e i st f s) =
     map (\<lambda>r. if tl_id r = i then (f r)\<lparr>tl_status := st, tl_updatedAt := now e\<rparr> else r)
       (transaction_logs s)"
  "ledger_entries (log_update e i st f s) = ledger_entries s"
  "idempotency_cache (log_update e i st f s) = idempotency_cache s"
  "locks (log_update e i st f s) = locks s"
  "next_id (log_update e i st f s) = next_id s"
  "trace (log_update e i st f s) = trace s @ [LOG_UPDATE i st]"
  by (simp_all add: log_update_def)

lemma wallet_update_fields [simp]:
  "fst (wallet_update i x b v s) =
     length (filter (\<lambda>w. w_id w = i \<and> w_version w = x) (wallets s))"
  "wallets (snd (wallet_update i x b v s)) =
     map (\<lambda>w. if w_id w = i \<and> w_version w = x then w\<lparr>w_balance := b, w_version := v\<rparr> else w)
       (wallets s)"
  "transaction_logs (snd (wallet_update i x b v s)) = transaction_logs s"
  "ledger_entries (snd (wallet_update i x b v s)) = ledger_entries s"
  "idempotency_cache (snd (wallet_update i x b v s)) = idempotency_cache s"
  "locks (snd (wallet_update i x b v s)) = locks s"
  "next_id (snd (wallet_update i x b v s)) = next_id s"
  "trace (snd (wallet_update i x b v s)) = trace s @ [WALLET_UPDATE i x]"
  by (simp_all add: wallet_update_def)

lemma ledger_create_fields [simp]:
  "wallets (ledger_create r s) = wallets s"
  "transaction_logs (ledger_create r s) = transaction_logs s"
  "ledger_entries (ledger_create r s) = ledger_entries s @ [r]"
  "idempotency_cache (ledger_create r s) = idempotency_cache s"
  "locks (ledger_create r s) = locks s"
  "next_id (ledger_create r s) = next_id s"
  "trace (ledger_create r s) =
     trace s @ [LEDGER_INSERT (le_transactionId r) (le_walletId r) (le_type r)]"
  by (simp_all add: ledger_create_def)

lemma log_create_fields [simp]:
  "fst (log_create e r s) =
     (if \<exists>x \<in> set (transaction_logs s). tl_idempotencyKey x = tl_idempotencyKey r then None
      else Some (r\<lparr>tl_id := next_id s, tl_updatedAt := now e\<rparr>))"
  "wallets (snd (log_create e r s)) = wallets s"
  "transaction_logs (snd (log_create e r s)) =
     (if \<exists>x \<in> set (transaction_logs s). tl_idempotencyKey x = tl_idempotencyKey r
      then transaction_logs s
      else transaction_logs s @ [r\<lparr>tl_id := next_id s, tl_updatedAt := now e\<rparr>])"
  "ledger_entries (snd (log_create e r s)) = ledger_entries s"
  "idempotency_cache (snd (log_create e r s)) = idempotency_cache s"
  "locks (snd (log_create e r s)) = locks s"
  "next_id (snd (log_create e r s)) =
     (if \<exists>x \<in> set (transaction_logs s). tl_idempotencyKey x = tl_idempotencyKey r
      then next_id s else Suc (next_id s))"
  "trace (snd (log_create e r s)) = trace s @ [LOG_INSERT (tl_idempotencyKey r) (tl_amount r)]"
  by (simp_all add: log_create_def Let_def)

lemma getCachedResult_simps [simp]:
  "snd (getCachedResult t s) =
     emit (WALLET_SELECT (tl_toWalletId t)) (emit (WALLET_SELECT (tl_fromWalletId t)) s)"
  "fst (getCachedResult t (emit ev s)) = fst (getCachedResult t s)"
  by (simp_all add: getCachedResult_def case_prod_beta split: option.splits)

lemma checkIdempotency_fields [simp]:
  "wallets (snd (checkIdempotency e k s)) = wallets s"
  "transaction_logs (snd (checkIdempotency e k s)) = transaction_logs s"
  "ledger_entries (snd (checkIdempotency e k s)) = ledger_entries s"
  "idempotency_cache (snd (checkIdempotency e k s)) = idempotency_cache s"
  "locks (snd (checkIdempotency e k s)) = locks s"
  "next_id (snd (checkIdempotency e k s)) = next_id s"
  by (simp_all add: checkIdempotency_def case_prod_beta split: option.splits sum.splits)

lemma checkIdempotency_None:
  assumes "fst (checkIdempotency e k s) = Inr None"
  shows "snd (checkIdempotency e k s) =
           emit (LOG_FIND_ONE k) (emit (REDIS_GET (''idempotency:'' @ k)) s)"
    and "fst (redis_get e k s) = None"
    and "\<forall>t. find (\<lambda>r. tl_idempotencyKey r = k) (transaction_logs s) = Some t
             \<longrightarrow> tl_status t \<noteq> COMPLETED"
  using assms
  by (simp_all add: checkIdempotency_def case_prod_beta isCompleted_def
               split: option.splits sum.splits if_splits)

lemma acquireLock_fields [simp]:
  "wallets (snd (acquireLock e k s)) = wallets s"
  "transaction_logs (snd (acquireLock e k s)) = transaction_logs s"
  "ledger_entries (snd (acquireLock e k s)) = ledger_entries s"
  "idempotency_cache (snd (acquireLock e k s)) = idempotency_cache s"
  "next_id (snd (acquireLock e k s)) = next_id s"
  "trace (snd (acquireLock e k s)) = trace s @ [REDIS_SET_NX (''lock:'' @ k)]"
  "fst (acquireLock e k (emit ev s)) = fst (acquireLock e k s)"
  by (simp_all add: acquireLock_def)

lemma releaseLock_fields [simp]:
  "wallets (releaseLock k s) = wallets s"
  "transaction_logs (releaseLock k s) = transaction_logs s"
  "ledger_entries (releaseLock k s) = ledger_entries s"
  "idempotency_cache (releaseLock k s) = idempotency_cache s"
  "next_id (releaseLock k s) = next_id s"
  "trace (releaseLock k s) = trace s @ [REDIS_DEL (''lock:'' @ k)]"
  by (simp_all add: releaseLock_def)

lemma cacheResult_fields [simp]:
  "wallets (cacheResult e k v s) = wallets s"
  "transaction_logs (cacheResult e k v s) = transaction_logs s"
  "ledger_entries (cacheResult e k v s) = ledger_entries s"
  "idempotency_cache (cacheResult e k v s) =
     (k, v, now e + 86400000) # filter (\<lambda>p. fst p \<noteq> k) (idempotency_cache s)"
  "locks (cacheResult e k v s) = locks s"
  "next_id (cacheResult e k v s) = next_id s"
  "trace (cacheResult e k v s) = trace s @ [REDIS_SETEX (''idempotency:'' @ k)]"
  by (simp_all add: cacheResult_def IDEMPOTENCY_TTL_def)

lemma createLedgerEntries_fields [simp]:
  "wallets (createLedgerEntries x f t a c fb tb d s) = wallets s"
  "transaction_logs (createLedgerEntries x f t a c fb tb d s) = transaction_logs s"
  "ledger_entries (createLedgerEntries x f t a c fb tb d s) =
     ledger_entries s @
       [\<lparr>le_transactionId = x, le_walletId = f, le_type = DEBIT, le_amount = a,
         le_currency = c, le_balanceAfter = fb, le_description = str_or d ''Transfer out''\<rparr>,
        \<lparr>le_transactionId = x, le_walletId = t, le_type = CREDIT, le_amount = a,
         le_currency = c, le_balanceAfter = tb, le_description = str_or d []\<rparr>]"
  "idempotency_cache (createLedgerEntries x f t a c fb tb d s) = idempotency_cache s"
  "locks (createLedgerEntries x f t a c fb tb d s) = locks s"
  "next_id (createLedgerEntries x f t a c fb tb d s) = next_id s"
  "trace (createLedgerEntries x f t a c fb tb d s) =
     trace s @ [LEDGER_INSERT x f DEBIT, LEDGER_INSERT x t CREDIT]"
  by (simp_all add: createLedgerEntries_def Let_def)

section \<open>Money strings under parseFloat and decimal.js\<close>

lemma is_money_split:
  assumes "is_money s"
  obtains ip fp where "s = ip @ CHR ''.'' # fp" "ip \<noteq> []" "list_all is_digit ip"
    "list_all is_digit fp" "length fp = 2" "cents s = digits_val (ip @ fp)"
proof -
  let ?n = "length s"
  from assms have n: "4 \<le> ?n" and dot: "s ! (?n - 3) = CHR ''.''"
    and ip: "list_all is_digit (take (?n - 3) s)" and fp: "list_all is_digit (drop (?n - 2) s)"
    by (simp_all add: is_money_def)
  have "s = take (?n - 3) s @ s ! (?n - 3) # drop (Suc (?n - 3)) s"
    using n by (intro id_take_nth_drop) simp
  moreover have "Suc (?n - 3) = ?n - 2" using n by simp
  ultimately have "s = take (?n - 3) s @ CHR ''.'' # drop (?n - 2) s"
    using dot by simp
  moreover have "take (?n - 3) s \<noteq> []" using n by auto
  moreover have "length (drop (?n - 2) s) = 2" using n by simp
  ultimately show ?thesis
    using that[of "take (?n - 3) s" "drop (?n - 2) s"] ip fp by (simp add: cents_def)
qed

lemma not_digit_dot [simp]: "\<not> is_digit CHR ''.''"
  by (simp add: is_digit_def)

lemma takeWhile_digits:
  "list_all is_digit ds \<Longrightarrow> takeWhile is_digit (ds @ r) = ds @ takeWhile is_digit r"
  by (induction ds) auto

lemma dropWhile_digits:
  "list_all is_digit ds \<Longrightarrow> dropWhile is_digit (ds @ r) = dropWhile is_digit r"
  by (induction ds) auto

lemma takeWhile_all_digits [simp]: "list_all is_digit ds \<Longrightarrow> takeWhile is_digit ds = ds"
  by (induction ds) auto

lemma dropWhile_all_digits [simp]: "list_all is_digit ds \<Longrightarrow> dropWhile is_digit ds = []"
  by (induction ds) auto

lemma scan_decimal_fraction:
  assumes "list_all is_digit ip" "ip \<noteq> []" "list_all is_digit fp"
  shows "scan_decimal (ip @ CHR ''.'' # fp) = Some (digits_val (ip @ fp), - int (length fp), [])"
  using assms
  by (simp add: scan_decimal_def takeWhile_digits dropWhile_digits exponent_part_def)

lemma digit_head:
  assumes "list_all is_digit ip" "ip \<noteq> []"
  obtains c r where "ip = c # r" "is_digit c" "c \<noteq> CHR ''-''" "c \<noteq> CHR ''+''"
    "\<not> is_space c" "c \<noteq> CHR ''I''"
proof -
  from assms obtain c r where ip: "ip = c # r" by (cases ip) auto
  with assms have d: "is_digit c" by simp
  then have "c \<noteq> CHR ''-''" "c \<noteq> CHR ''+''" "\<not> is_space c" "c \<noteq> CHR ''I''"
    by (auto simp: is_digit_def is_space_def)
  with ip d show ?thesis using that by blast
qed

lemma parseFloat_money:
  assumes "is_money s"
  shows "parseFloat s = Num (of_nat (cents s) / 100)"
proof -
  from assms obtain ip fp where s: "s = ip @ CHR ''.'' # fp" and ip: "ip \<noteq> []" "list_all is_digit ip"
    and fp: "list_all is_digit fp" "length fp = 2" and c: "cents s = digits_val (ip @ fp)"
    by (rule is_money_split)
  obtain ch r where h: "ip = ch # r" "is_digit ch" "ch \<noteq> CHR ''-''" "ch \<noteq> CHR ''+''"
    "\<not> is_space ch" "ch \<noteq> CHR ''I''"
    by (rule digit_head[OF ip(2) ip(1)])
  have sc: "scan_decimal s = Some (digits_val (ip @ fp), - 2, [])"
    using scan_decimal_fraction[OF ip(2) ip(1) fp(1)] fp(2) s by simp
  have "parseFloat s = Num (of_nat (digits_val (ip @ fp)) * pow10 (- 2))"
    using h sc unfolding parseFloat_def s by (simp add: Let_def)
  then show ?thesis by (simp add: c pow10_def)
qed

lemma parseFloat_minus_money:
  assumes "is_money m"
  shows "parseFloat (CHR ''-'' # m) = Num (- (of_nat (cents m) / 100))"
proof -
  from assms obtain ip fp where s: "m = ip @ CHR ''.'' # fp" and ip: "ip \<noteq> []" "list_all is_digit ip"
    and fp: "list_all is_digit fp" "length fp = 2" and c: "cents m = digits_val (ip @ fp)"
    by (rule is_money_split)
  obtain ch r where h: "ip = ch # r" "is_digit ch" "ch \<noteq> CHR ''-''" "ch \<noteq> CHR ''+''"
    "\<not> is_space ch" "ch \<noteq> CHR ''I''"
    by (rule digit_head[OF ip(2) ip(1)])
  have sc: "scan_decimal m = Some (digits_val (ip @ fp), - 2, [])"
    using scan_decimal_fraction[OF ip(2) ip(1) fp(1)] fp(2) s by simp
  have sp: "\<not> is_space CHR ''-''" by (simp add: is_space_def)
  have "parseFloat (CHR ''-'' # m) = Num (- 1 * of_nat (digits_val (ip @ fp)) * pow10 (- 2))"
    using h sc sp unfolding parseFloat_def s by (simp add: Let_def)
  then show ?thesis by (simp add: c pow10_def)
qed

lemma Decimal_money:
  assumes "is_money s"
  shows "Decimal s = Some (int (cents s), - 2)"
proof -
  from assms obtain ip fp where s: "s = ip @ CHR ''.'' # fp" and ip: "ip \<noteq> []" "list_all is_digit ip"
    and fp: "list_all is_digit fp" "length fp = 2" and c: "cents s = digits_val (ip @ fp)"
    by (rule is_money_split)
  obtain ch r where h: "ip = ch # r" "is_digit ch" "ch \<noteq> CHR ''-''" "ch \<noteq> CHR ''+''"
    "\<not> is_space ch" "ch \<noteq> CHR ''I''"
    by (rule digit_head[OF ip(2) ip(1)])
  have sc: "scan_decimal s = Some (digits_val (ip @ fp), - 2, [])"
    using scan_decimal_fraction[OF ip(2) ip(1) fp(1)] fp(2) s by simp
  have "Decimal s = Some (int (digits_val (ip @ fp)), - 2)"
    using h sc unfolding Decimal_def s by (simp add: Let_def)
  then show ?thesis by (simp add: c)
qed


lemma digit_char_simps [simp]:
  "is_digit (digit_char d)" "digit_val (digit_char d) = d mod 10"
proof -
  have "d mod 10 \<in> {0, 1, 2, 3, 4, 5, 6, 7, 8, 9}" by (simp add: le_less_Suc_eq) arith
  then show "is_digit (digit_char d)" "digit_val (digit_char d) = d mod 10"
    by (auto simp: digit_char_def is_digit_def digit_val_def)
qed

lemma digits_val_snoc [simp]: "digits_val (xs @ [c]) = 10 * digits_val xs + digit_val c"
  by (simp add: digits_val_def)

lemma digits_val_Nil [simp]: "digits_val [] = 0"
  by (simp add: digits_val_def)

lemma show_nat_digits [simp]: "list_all is_digit (show_nat n)"
  by (induction n rule: show_nat.induct) (subst show_nat.simps, simp)

lemma show_nat_not_Nil [simp]: "show_nat n \<noteq> []"
  by (subst show_nat.simps) simp

lemma digits_val_show_nat [simp]: "digits_val (show_nat n) = n"
proof (induction n rule: show_nat.induct)
  case (1 n)
  show ?case
  proof (cases "n < 10")
    case True
    then show ?thesis by (subst show_nat.simps) (simp add: digits_val_def)
  next
    case False
    with 1 show ?thesis by (subst show_nat.simps) simp
  qed
qed

lemma ndigits_le: "n < 10 ^ k \<Longrightarrow> 0 < k \<Longrightarrow> ndigits n \<le> k"
proof (induction k arbitrary: n)
  case 0
  then show ?case by simp
next
  case (Suc k)
  show ?case
  proof (cases "n < 10")
    case True
    then show ?thesis by (subst ndigits.simps) simp
  next
    case False
    then have k: "0 < k" using Suc.prems by (cases k) auto
    have "n div 10 < 10 ^ k" using Suc.prems by (simp add: less_mult_imp_div_less mult.commute)
    from Suc.IH[OF this k] False show ?thesis by (subst ndigits.simps) simp
  qed
qed

lemma money_parts:
  assumes "length fp = 2"
  shows "take (length (ip @ CHR ''.'' # fp) - 3) (ip @ CHR ''.'' # fp) = ip"
    and "(ip @ CHR ''.'' # fp) ! (length (ip @ CHR ''.'' # fp) - 3) = CHR ''.''"
    and "drop (length (ip @ CHR ''.'' # fp) - 2) (ip @ CHR ''.'' # fp) = fp"
proof -
  have a: "length (ip @ CHR ''.'' # fp) - 3 = length ip" using assms by simp
  have b: "length (ip @ CHR ''.'' # fp) - 2 = Suc (length ip)" using assms by simp
  show "take (length (ip @ CHR ''.'' # fp) - 3) (ip @ CHR ''.'' # fp) = ip"
    unfolding a by simp
  show "(ip @ CHR ''.'' # fp) ! (length (ip @ CHR ''.'' # fp) - 3) = CHR ''.''"
    unfolding a by simp
  show "drop (length (ip @ CHR ''.'' # fp) - 2) (ip @ CHR ''.'' # fp) = fp"
    unfolding b by simp
qed

lemma is_money_money_str [simp]: "is_money (money_str n)"
proof -
  have l: "length [digit_char ((n mod 100) div 10), digit_char (n mod 10)] = 2" by simp
  note p = money_parts[OF l, of "show_nat (n div 100)"]
  have "4 \<le> length (money_str n)"
    using show_nat_not_Nil[of "n div 100"]
    by (cases "show_nat (n div 100)") (simp_all add: money_str_def)
  then show ?thesis
    unfolding is_money_def money_str_def p by simp
qed

lemma cents_money_str [simp]: "cents (money_str n) = n"
proof -
  have l: "length [digit_char ((n mod 100) div 10), digit_char (n mod 10)] = 2" by simp
  note p = money_parts[OF l, of "show_nat (n div 100)"]
  have "cents (money_str n) =
          digits_val ((show_nat (n div 100) @ [digit_char ((n mod 100) div 10)]) @ [digit_char (n mod 10)])"
    unfolding cents_def money_str_def p by simp
  also have "\<dots> = 10 * (10 * (n div 100) + (n mod 100) div 10) + n mod 10"
    by (simp only: digits_val_snoc digits_val_show_nat digit_char_simps) simp
  also have "\<dots> = n"
  proof -
    have a: "(n mod 100) mod 10 = n mod 10" by (simp add: mod_mod_cancel)
    have "10 * ((n mod 100) div 10) + (n mod 100) mod 10 = n mod 100" by simp
    with a have b: "10 * ((n mod 100) div 10) + n mod 10 = n mod 100" by simp
    have "10 * (10 * (n div 100) + (n mod 100) div 10) + n mod 10 =
            100 * (n div 100) + (10 * ((n mod 100) div 10) + n mod 10)" by simp
    also have "\<dots> = n" unfolding b by simp
    finally show ?thesis .
  qed
  finally show ?thesis .
qed

lemma toFixed2_scale2:
  "0 \<le> c \<Longrightarrow> toFixed2 rm (c, - 2) = money_str (nat c)"
  by (simp add: toFixed2_def money_str_def Let_def)

lemma plus_scale2:
  "\<bar>a + b\<bar> < 10 ^ 20 \<Longrightarrow> plus rm (a, - 2) (b, - 2) = (a + b, - 2)"
proof -
  assume "\<bar>a + b\<bar> < 10 ^ 20"
  then have "nat \<bar>a + b\<bar> < 10 ^ 20" by simp
  then have "ndigits (nat \<bar>a + b\<bar>) \<le> 20" by (rule ndigits_le) simp
  then show ?thesis by (simp add: plus_def finalise_def precision_def Let_def)
qed

lemma minus_scale2:
  "\<bar>a - b\<bar> < 10 ^ 20 \<Longrightarrow> minus rm (a, - 2) (b, - 2) = (a - b, - 2)"
  using plus_scale2[of a "- b" rm] by (simp add: minus_def)

section \<open>The serializable section and the protocol, case by case\<close>

lemma executeTransfer_update_fields [simp]:
  "idempotency_cache (snd (executeTransfer_update e t dto fw tw s)) = idempotency_cache s"
  "locks (snd (executeTransfer_update e t dto fw tw s)) = locks s"
  "next_id (snd (executeTransfer_update e t dto fw tw s)) = next_id s"
  by (simp_all add: executeTransfer_update_def Let_def case_prod_beta split: option.splits)

lemma executeTransfer_callback_fields [simp]:
  "idempotency_cache (snd (executeTransfer_callback e t dto s)) = idempotency_cache s"
  "locks (snd (executeTransfer_callback e t dto s)) = locks s"
  "next_id (snd (executeTransfer_callback e t dto s)) = next_id s"
  by (simp_all add: executeTransfer_callback_def Let_def case_prod_beta split: option.splits)

lemma executeTransfer_fields [simp]:
  "idempotency_cache (snd (executeTransfer e t dto s)) = idempotency_cache s"
  "locks (snd (executeTransfer e t dto s)) = locks s"
  "next_id (snd (executeTransfer e t dto s)) = next_id s"
  by (simp_all add: executeTransfer_def case_prod_beta emit_def split: sum.splits)

lemma executeTransfer_rollback:
  assumes "fst (executeTransfer e t dto s) = Inl err"
  shows "wallets (snd (executeTransfer e t dto s)) = wallets s"
    and "transaction_logs (snd (executeTransfer e t dto s)) = transaction_logs s"
    and "ledger_entries (snd (executeTransfer e t dto s)) = ledger_entries s"
  using assms
  by (simp_all add: executeTransfer_def case_prod_beta emit_def split: sum.splits)

lemma locked_state_fields [simp]:
  "wallets (locked_state e t dto s) = wallets s"
  "transaction_logs (locked_state e t dto s) =
     map (\<lambda>r. if tl_id r = tl_id t then r\<lparr>tl_status := PROCESSING, tl_updatedAt := now e\<rparr> else r)
       (transaction_logs s)"
  "ledger_entries (locked_state e t dto s) = ledger_entries s"
  "idempotency_cache (locked_state e t dto s) = idempotency_cache s"
  "locks (locked_state e t dto s) = locks s"
  "next_id (locked_state e t dto s) = next_id s"
  "trace (locked_state e t dto s) =
     trace s @ [TX_BEGIN, LOG_UPDATE (tl_id t) PROCESSING,
                WALLET_SELECT_FOR_UPDATE (fromWalletId dto),
                WALLET_SELECT_FOR_UPDATE (toWalletId dto)]"
  by (simp_all add: locked_state_def)

lemma executeTransfer_callback_checked:
  assumes "find (\<lambda>w. w_id w = fromWalletId dto) (wallets s) = Some fw"
    and "find (\<lambda>w. w_id w = toWalletId dto) (wallets s) = Some tw"
    and "isActive fw" and "isActive tw"
  shows "executeTransfer_callback e t dto (emit TX_BEGIN s) =
           (if hasAvailableBalance fw (amount dto)
            then executeTransfer_update e t dto fw tw (locked_state e t dto s)
            else (Inl (InsufficientFunds (w_balance fw) (amount dto)), locked_state e t dto s))"
  using assms
  by (simp add: executeTransfer_callback_def Let_def case_prod_beta locked_state_def)

lemma executeTransfer_Inr:
  assumes "fst (executeTransfer e t dto s) = Inr r"
  obtains fw tw where
    "find (\<lambda>w. w_id w = fromWalletId dto) (wallets s) = Some fw"
    "find (\<lambda>w. w_id w = toWalletId dto) (wallets s) = Some tw"
    "isActive fw" "isActive tw" "hasAvailableBalance fw (amount dto)"
    "fst (executeTransfer_update e t dto fw tw (locked_state e t dto s)) = Inr r"
    "snd (executeTransfer e t dto s) =
       emit TX_COMMIT (snd (executeTransfer_update e t dto fw tw (locked_state e t dto s)))"
  using assms
  by (auto simp: executeTransfer_def executeTransfer_callback_def Let_def case_prod_beta
        locked_state_def split: sum.splits option.splits if_splits)

lemma executeTransfer_update_Inr:
  assumes "fst (executeTransfer_update e t dto fw tw s) = Inr r"
  shows "Decimal (amount dto) \<noteq> None" "Decimal (w_balance fw) \<noteq> None"
    "Decimal (w_balance tw) \<noteq> None"
    "r = \<lparr>success = True, transactionId = tl_id t, status = COMPLETED,
          fromWallet = \<lparr>wb_id = w_id fw, newBalance = new_from_balance e dto fw\<rparr>,
          toWallet = \<lparr>wb_id = w_id tw, newBalance = new_to_balance e dto tw\<rparr>,
          timestamp = result_date e\<rparr>"
    "wallets (snd (executeTransfer_update e t dto fw tw s)) =
       map (bump (w_id tw) (w_version tw) (new_to_balance e dto tw))
         (map (bump (w_id fw) (w_version fw) (new_from_balance e dto fw)) (wallets s))"
    "ledger_entries (snd (executeTransfer_update e t dto fw tw s)) =
       ledger_entries s @
         [debit_entry (tl_id t) dto (w_id fw) (new_from_balance e dto fw),
          credit_entry (tl_id t) dto (w_id tw) (new_to_balance e dto tw)]"
    "transaction_logs (snd (executeTransfer_update e t dto fw tw s)) =
       map (set_status e (tl_id t) COMPLETED (\<lambda>r. r\<lparr>tl_completedAt := Some (completed_date e)\<rparr>))
         (transaction_logs s)"
    "trace (snd (executeTransfer_update e t dto fw tw s)) =
       trace s @ [WALLET_UPDATE (w_id fw) (w_version fw), WALLET_UPDATE (w_id tw) (w_version tw),
                  LEDGER_INSERT (tl_id t) (w_id fw) DEBIT, LEDGER_INSERT (tl_id t) (w_id tw) CREDIT,
                  LOG_UPDATE (tl_id t) COMPLETED]"
  using assms
  by (auto simp: executeTransfer_update_def Let_def case_prod_beta new_from_balance_def
        new_to_balance_def debit_entry_def credit_entry_def bump_def set_status_def
      split: option.splits if_splits)

lemma pending_row_simps [simp]:
  "pending_row e dto (emit ev s) = pending_row e dto s"
  "tl_id (pending_row e dto s) = next_id s"
  "tl_idempotencyKey (pending_row e dto s) = idempotencyKey dto"
  "tl_status (pending_row e dto s) = PENDING"
  by (simp_all add: pending_row_def)

lemma intent_state_fields [simp]:
  "wallets (intent_state e dto s) = wallets s"
  "transaction_logs (intent_state e dto s) = transaction_logs s @ [pending_row e dto s]"
  "ledger_entries (intent_state e dto s) = ledger_entries s"
  "idempotency_cache (intent_state e dto s) = idempotency_cache s"
  "next_id (intent_state e dto s) = Suc (next_id s)"
  "trace (intent_state e dto s) =
     trace s @ [REDIS_SET_NX (''lock:'' @ idempotencyKey dto),
                LOG_INSERT (idempotencyKey dto) (amount dto)]"
  by (simp_all add: intent_state_def)

lemma createTransactionLog_new:
  assumes "\<forall>x \<in> set (transaction_logs s). tl_idempotencyKey x \<noteq> idempotencyKey dto"
  shows "createTransactionLog e (idempotencyKey dto) (fromWalletId dto) (toWalletId dto)
           (amount dto) (opt_or (currency dto) ''NGN'') (description dto) TRANSFER
           (snd (acquireLock e (idempotencyKey dto) s)) =
         (Inr (pending_row e dto s), intent_state e dto s)"
  using assms
  by (simp add: createTransactionLog_def log_create_def Let_def pending_row_def
        intent_state_def emit_def)

lemma transfer_protocol_refused:
  assumes "\<not> fst (acquireLock e (idempotencyKey dto) s)"
  shows "transfer_protocol e dto s =
           (Inl (ConflictException
              ''Another request with the same idempotency key is being processed''),
            snd (acquireLock e (idempotencyKey dto) s))"
  using assms
  by (cases "acquireLock e (idempotencyKey dto) s") (simp add: transfer_protocol_def)

lemma transfer_protocol_new:
  assumes "fst (acquireLock e (idempotencyKey dto) s)"
    and "\<forall>x \<in> set (transaction_logs s). tl_idempotencyKey x \<noteq> idempotencyKey dto"
  shows "transfer_protocol e dto s =
           (case executeTransfer e (pending_row e dto s) dto (intent_state e dto s) of
              (Inl err, s3) \<Rightarrow>
                (Inl err,
                 releaseLock (idempotencyKey dto)
                   (log_update e (next_id s) FAILED
                      (\<lambda>r. r\<lparr>tl_errorMessage := Some (message err)\<rparr>) s3))
            | (Inr result, s3) \<Rightarrow>
                (Inr result,
                 releaseLock (idempotencyKey dto)
                   (cacheResult e (idempotencyKey dto) result s3)))"
proof -
  obtain s1 where l: "acquireLock e (idempotencyKey dto) s = (True, s1)"
    using assms(1) by (cases "acquireLock e (idempotencyKey dto) s") auto
  then have s1: "s1 = snd (acquireLock e (idempotencyKey dto) s)" by simp
  have c: "createTransactionLog e (idempotencyKey dto) (fromWalletId dto) (toWalletId dto)
           (amount dto) (opt_or (currency dto) ''NGN'') (description dto) TRANSFER s1 =
         (Inr (pending_row e dto s), intent_state e dto s)"
    unfolding s1 by (rule createTransactionLog_new[OF assms(2)])
  have i: "tl_id (pending_row e dto s) = next_id s" by (simp add: pending_row_def)
  show ?thesis
    by (simp add: transfer_protocol_def l c i split: prod.splits sum.splits)
qed

lemma transfer_protocol_existing:
  assumes "fst (acquireLock e (idempotencyKey dto) s)"
    and "find (\<lambda>r. tl_idempotencyKey r = idempotencyKey dto) (transaction_logs s) = Some x"
    and "tl_status x \<noteq> COMPLETED"
  shows "fst (transfer_protocol e dto s) =
           Inl (ConflictException
                  ''Transaction with this idempotency key is already being processed'')"
    and "wallets (snd (transfer_protocol e dto s)) = wallets s"
    and "transaction_logs (snd (transfer_protocol e dto s)) = transaction_logs s"
    and "ledger_entries (snd (transfer_protocol e dto s)) = ledger_entries s"
    and "next_id (snd (transfer_protocol e dto s)) = next_id s"
    and "idempotency_cache (snd (transfer_protocol e dto s)) = idempotency_cache s"
proof -
  obtain s1 where l: "acquireLock e (idempotencyKey dto) s = (True, s1)"
    using assms(1) by (cases "acquireLock e (idempotencyKey dto) s") auto
  then have s1: "s1 = snd (acquireLock e (idempotencyKey dto) s)" by simp
  have f: "wallets s1 = wallets s" "transaction_logs s1 = transaction_logs s"
    "ledger_entries s1 = ledger_entries s" "next_id s1 = next_id s"
    "idempotency_cache s1 = idempotency_cache s"
    unfolding s1 by simp_all
  from assms(2) have ex: "\<exists>y \<in> set (transaction_logs s). tl_idempotencyKey y = idempotencyKey dto"
    by (auto simp: find_Some_iff)
  have c: "createTransactionLog e (idempotencyKey dto) (fromWalletId dto) (toWalletId dto)
           (amount dto) (opt_or (currency dto) ''NGN'') (description dto) TRANSFER s1 =
         (Inl (ConflictException
                  ''Transaction with this idempotency key is already being processed''),
          emit (LOG_FIND_ONE (idempotencyKey dto))
            (emit (LOG_INSERT (idempotencyKey dto) (amount dto)) s1))"
    using ex assms(2,3)
    by (simp add: createTransactionLog_def log_create_def Let_def isCompleted_def
          case_prod_beta f)
  show "fst (transfer_protocol e dto s) =
           Inl (ConflictException
                  ''Transaction with this idempotency key is already being processed'')"
    and "wallets (snd (transfer_protocol e dto s)) = wallets s"
    and "transaction_logs (snd (transfer_protocol e dto s)) = transaction_logs s"
    and "ledger_entries (snd (transfer_protocol e dto s)) = ledger_entries s"
    and "next_id (snd (transfer_protocol e dto s)) = next_id s"
    and "idempotency_cache (snd (transfer_protocol e dto s)) = idempotency_cache s"
    by (simp_all add: transfer_protocol_def l c f)
qed

lemma createTransactionLog_trace:
  "\<exists>tr. trace (snd (createTransactionLog e k f t a c d ty s)) = trace s @ LOG_INSERT k a # tr"
  by (simp add: createTransactionLog_def case_prod_beta split: option.splits sum.splits)

lemma executeTransfer_trace:
  "\<exists>tr. trace (snd (executeTransfer e t dto s)) = trace s @ tr"
  by (simp add: executeTransfer_def executeTransfer_callback_def executeTransfer_update_def
        Let_def case_prod_beta split: option.splits sum.splits)

lemma transfer_protocol_trace:
  assumes "fst (acquireLock e (idempotencyKey dto) s)"
  shows "\<exists>tr. trace (snd (transfer_protocol e dto s)) =
           trace s @ REDIS_SET_NX (''lock:'' @ idempotencyKey dto)
             # LOG_INSERT (idempotencyKey dto) (amount dto) # tr"
proof -
  let ?k = "idempotencyKey dto"
  obtain s1 where l: "acquireLock e ?k s = (True, s1)"
    using assms by (cases "acquireLock e ?k s") auto
  then have "s1 = snd (acquireLock e ?k s)" by simp
  then have t1: "trace s1 = trace s @ [REDIS_SET_NX (''lock:'' @ ?k)]" by simp
  obtain r2 s2 where c: "createTransactionLog e ?k (fromWalletId dto) (toWalletId dto)
      (amount dto) (opt_or (currency dto) ''NGN'') (description dto) TRANSFER s1 = (r2, s2)"
    by (cases "createTransactionLog e ?k (fromWalletId dto) (toWalletId dto)
      (amount dto) (opt_or (currency dto) ''NGN'') (description dto) TRANSFER s1")
  with createTransactionLog_trace[of e ?k "fromWalletId dto" "toWalletId dto" "amount dto"
      "opt_or (currency dto) ''NGN''" "description dto" TRANSFER s1]
  obtain tr2 where t2: "trace s2 = trace s1 @ LOG_INSERT ?k (amount dto) # tr2" by auto
  show ?thesis
  proof (cases r2)
    case (Inl err)
    then show ?thesis by (simp add: transfer_protocol_def l c t1 t2)
  next
    case (Inr row)
    obtain r3 s3 where x: "executeTransfer e row dto s2 = (r3, s3)"
      by (cases "executeTransfer e row dto s2")
    with executeTransfer_trace[of e row dto s2] obtain tr3 where t3: "trace s3 = trace s2 @ tr3"
      by auto
    show ?thesis
      by (cases r3) (simp_all add: transfer_protocol_def l c Inr x t1 t2 t3)
  qed
qed

lemma createTransactionLog_fields [simp]:
  "wallets (snd (createTransactionLog e k f t a c d ty s)) = wallets s"
  "ledger_entries (snd (createTransactionLog e k f t a c d ty s)) = ledger_entries s"
  "idempotency_cache (snd (createTransactionLog e k f t a c d ty s)) = idempotency_cache s"
  "locks (snd (createTransactionLog e k f t a c d ty s)) = locks s"
  by (simp_all add: createTransactionLog_def case_prod_beta split: option.splits sum.splits)

lemma transfer_cache_hit:
  assumes "map_of (idempotency_cache s) (idempotencyKey dto) = Some (r, expires)"
    and "now e < expires"
  shows "transfer e dto s = (Inr r, emit (REDIS_GET (''idempotency:'' @ idempotencyKey dto)) s)"
  using assms by (simp add: transfer_def checkIdempotency_def redis_get_def)

lemma transfer_protocol_caches:
  assumes "fst (transfer_protocol e dto s) = Inr r"
  shows "idempotency_cache (snd (transfer_protocol e dto s)) =
           (idempotencyKey dto, r, now e + 86400000)
             # filter (\<lambda>p. fst p \<noteq> idempotencyKey dto) (idempotency_cache s)"
proof -
  let ?k = "idempotencyKey dto"
  obtain b s1 where l: "acquireLock e ?k s = (b, s1)" by (cases "acquireLock e ?k s")
  then have s1: "idempotency_cache s1 = idempotency_cache s"
    using acquireLock_fields(4)[of e ?k s] by simp
  obtain r2 s2 where c: "createTransactionLog e ?k (fromWalletId dto) (toWalletId dto)
      (amount dto) (opt_or (currency dto) ''NGN'') (description dto) TRANSFER s1 = (r2, s2)"
    by (cases "createTransactionLog e ?k (fromWalletId dto) (toWalletId dto)
      (amount dto) (opt_or (currency dto) ''NGN'') (description dto) TRANSFER s1")
  then have s2: "idempotency_cache s2 = idempotency_cache s1"
    using createTransactionLog_fields(3)[of e ?k "fromWalletId dto" "toWalletId dto" "amount dto"
      "opt_or (currency dto) ''NGN''" "description dto" TRANSFER s1] by simp
  from assms l have b: "b" by (cases b) (simp_all add: transfer_protocol_def)
  from assms l c b obtain row where r2: "r2 = Inr row"
    by (cases r2) (simp_all add: transfer_protocol_def)
  obtain r3 s3 where x: "executeTransfer e row dto s2 = (r3, s3)"
    by (cases "executeTransfer e row dto s2")
  then have s3: "idempotency_cache s3 = idempotency_cache s2"
    using executeTransfer_fields(1)[of e row dto s2] by simp
  from assms l c b r2 x have r3: "r3 = Inr r"
    by (cases r3) (simp_all add: transfer_protocol_def)
  show ?thesis
    using l c b r2 x r3 by (simp add: transfer_protocol_def s1 s2 s3)
qed

lemma transfer_n_cached:
  assumes "map_of (idempotency_cache s) (idempotencyKey dto) = Some (r, expires)"
    and "\<forall>e \<in> set es. now e < expires"
  shows "transfer_n es dto s =
           (replicate (length es) (Inr r),
            s\<lparr>trace := trace s @
                 replicate (length es) (REDIS_GET (''idempotency:'' @ idempotencyKey dto))\<rparr>)"
  using assms
proof (induction es arbitrary: s)
  case Nil
  then show ?case by simp
next
  case (Cons e es)
  let ?s1 = "emit (REDIS_GET (''idempotency:'' @ idempotencyKey dto)) s"
  from Cons.prems have h: "transfer e dto s = (Inr r, ?s1)"
    by (intro transfer_cache_hit) auto
  have "map_of (idempotency_cache ?s1) (idempotencyKey dto) = Some (r, expires)"
    using Cons.prems(1) by simp
  from Cons.IH[OF this] Cons.prems(2)
  have "transfer_n es dto ?s1 =
          (replicate (length es) (Inr r),
           ?s1\<lparr>trace := trace ?s1 @
                 replicate (length es) (REDIS_GET (''idempotency:'' @ idempotencyKey dto))\<rparr>)"
    by simp
  then show ?case
    by (simp add: h emit_def replicate_app_Cons_same)
qed

lemma transfer_completed_row:
  assumes "fst (redis_get e (idempotencyKey dto) s) = None"
    and "find (\<lambda>r. tl_idempotencyKey r = idempotencyKey dto) (transaction_logs s) = Some t"
    and "tl_status t = COMPLETED"
  shows "transfer e dto s =
           (fst (getCachedResult t s),
            s\<lparr>trace := trace s @ [REDIS_GET (''idempotency:'' @ idempotencyKey dto),
                                   LOG_FIND_ONE (idempotencyKey dto),
                                   WALLET_SELECT (tl_fromWalletId t),
                                   WALLET_SELECT (tl_toWalletId t)]\<rparr>)"
proof -
  let ?k = "idempotencyKey dto"
  have g: "redis_get e ?k s = (None, emit (REDIS_GET (''idempotency:'' @ ?k)) s)"
    using assms(1) by (cases "redis_get e ?k s") (simp add: redis_get_def)
  have "transfer e dto s =
          (fst (getCachedResult t s),
           emit (WALLET_SELECT (tl_toWalletId t)) (emit (WALLET_SELECT (tl_fromWalletId t))
             (emit (LOG_FIND_ONE ?k) (emit (REDIS_GET (''idempotency:'' @ ?k)) s))))"
  proof (cases "fst (getCachedResult t s)")
    case (Inl err)
    then show ?thesis
      using assms(2,3)
      by (simp add: transfer_def checkIdempotency_def g case_prod_beta isCompleted_def)
  next
    case (Inr res)
    then show ?thesis
      using assms(2,3)
      by (simp add: transfer_def checkIdempotency_def g case_prod_beta isCompleted_def)
  qed
  then show ?thesis by (simp add: emit_def)
qed

lemma find_map_same:
  assumes "\<And>x. P (f x) = P x"
  shows "find P (map f xs) = map_option f (find P xs)"
  by (induction xs) (simp_all add: assms)

lemma find_key_fresh:
  assumes "\<forall>x \<in> set xs. \<not> P x" and "P r"
  shows "find P (xs @ [r]) = Some r"
  using assms by (induction xs) simp_all

lemma bump_id [simp]: "w_id (bump i v b w) = w_id w"
  by (simp add: bump_def)

lemma set_status_key [simp]: "tl_idempotencyKey (set_status e i st (\<lambda>r. r\<lparr>tl_errorMessage := m\<rparr>) r) = tl_idempotencyKey r"
  "tl_idempotencyKey (set_status e i st (\<lambda>r. r\<lparr>tl_completedAt := c\<rparr>) r) = tl_idempotencyKey r"
  "tl_idempotencyKey (set_status e i st (\<lambda>r. r) r) = tl_idempotencyKey r"
  by (simp_all add: set_status_def)

text \<open>What an invocation that gets past the idempotency check and succeeds
  has done.\<close>

lemma transfer_Inr:
  assumes ci: "fst (checkIdempotency e (idempotencyKey dto) s) = Inr None"
    and ok: "fst (transfer e dto s) = Inr r"
  obtains fw tw where
    "validateTransferRequest dto = None"
    "\<forall>x \<in> set (transaction_logs s). tl_idempotencyKey x \<noteq> idempotencyKey dto"
    "find (\<lambda>w. w_id w = fromWalletId dto) (wallets s) = Some fw"
    "find (\<lambda>w. w_id w = toWalletId dto) (wallets s) = Some tw"
    "isActive fw" "isActive tw" "hasAvailableBalance fw (amount dto)"
    "Decimal (amount dto) \<noteq> None" "Decimal (w_balance fw) \<noteq> None"
    "Decimal (w_balance tw) \<noteq> None"
    "r = \<lparr>success = True, transactionId = next_id s, status = COMPLETED,
          fromWallet = \<lparr>wb_id = w_id fw, newBalance = new_from_balance e dto fw\<rparr>,
          toWallet = \<lparr>wb_id = w_id tw, newBalance = new_to_balance e dto tw\<rparr>,
          timestamp = result_date e\<rparr>"
    "wallets (snd (transfer e dto s)) =
       map (bump (w_id tw) (w_version tw) (new_to_balance e dto tw))
         (map (bump (w_id fw) (w_version fw) (new_from_balance e dto fw)) (wallets s))"
    "ledger_entries (snd (transfer e dto s)) =
       ledger_entries s @
         [debit_entry (next_id s) dto (w_id fw) (new_from_balance e dto fw),
          credit_entry (next_id s) dto (w_id tw) (new_to_balance e dto tw)]"
    "transaction_logs (snd (transfer e dto s)) =
       map (set_status e (next_id s) COMPLETED
              (\<lambda>r. r\<lparr>tl_completedAt := Some (completed_date e)\<rparr>))
         (map (set_status e (next_id s) PROCESSING (\<lambda>r. r))
            (transaction_logs s @ [pending_row e dto s]))"
    "next_id (snd (transfer e dto s)) = Suc (next_id s)"
proof -
  let ?k = "idempotencyKey dto"
  let ?s' = "emit (LOG_FIND_ONE ?k) (emit (REDIS_GET (''idempotency:'' @ ?k)) s)"
  from checkIdempotency_None(1)[OF ci] ci
  have cie: "checkIdempotency e ?k s = (Inr None, ?s')"
    by (cases "checkIdempotency e ?k s") simp
  have v: "validateTransferRequest dto = None"
  proof (cases "validateTransferRequest dto")
    case (Some err)
    with ok cie show ?thesis by (simp add: transfer_def)
  qed simp
  have t: "transfer e dto s = transfer_protocol e dto ?s'"
    by (simp add: transfer_def cie v)
  have l: "fst (acquireLock e ?k ?s')"
  proof (rule ccontr)
    assume "\<not> fst (acquireLock e ?k ?s')"
    from transfer_protocol_refused[OF this] ok t show False by simp
  qed
  have fresh: "\<forall>x \<in> set (transaction_logs s). tl_idempotencyKey x \<noteq> ?k"
  proof (rule ccontr)
    assume "\<not> (\<forall>x \<in> set (transaction_logs s). tl_idempotencyKey x \<noteq> ?k)"
    then obtain x where x: "find (\<lambda>r. tl_idempotencyKey r = ?k) (transaction_logs s) = Some x"
      by (cases "find (\<lambda>r. tl_idempotencyKey r = ?k) (transaction_logs s)")
         (auto simp: find_None_iff)
    with checkIdempotency_None(3)[OF ci] have "tl_status x \<noteq> COMPLETED" by blast
    with x have "fst (transfer_protocol e dto ?s') =
           Inl (ConflictException
                  ''Transaction with this idempotency key is already being processed'')"
      by (intro transfer_protocol_existing(1)[OF l]) simp_all
    with ok t show False by simp
  qed
  then have fresh': "\<forall>x \<in> set (transaction_logs ?s'). tl_idempotencyKey x \<noteq> ?k" by simp
  let ?row = "pending_row e dto ?s'"
  let ?si = "intent_state e dto ?s'"
  have row: "?row = pending_row e dto s" by (simp add: pending_row_def)
  note p = transfer_protocol_new[OF l fresh']
  obtain r3 s3 where x: "executeTransfer e ?row dto ?si = (r3, s3)"
    by (cases "executeTransfer e ?row dto ?si")
  with ok t p have r3: "r3 = Inr r" by (cases r3) simp_all
  with x have xr: "fst (executeTransfer e ?row dto ?si) = Inr r" by simp
  from t p x r3 have fin: "snd (transfer e dto s) = releaseLock ?k (cacheResult e ?k r s3)"
    by simp
  from xr obtain fw tw where
    f: "find (\<lambda>w. w_id w = fromWalletId dto) (wallets ?si) = Some fw"
      "find (\<lambda>w. w_id w = toWalletId dto) (wallets ?si) = Some tw"
      "isActive fw" "isActive tw" "hasAvailableBalance fw (amount dto)"
    and u: "fst (executeTransfer_update e ?row dto fw tw (locked_state e ?row dto ?si)) = Inr r"
    and sn: "snd (executeTransfer e ?row dto ?si) =
       emit TX_COMMIT (snd (executeTransfer_update e ?row dto fw tw (locked_state e ?row dto ?si)))"
    by (rule executeTransfer_Inr)
  from sn x have s3: "s3 = emit TX_COMMIT (snd (executeTransfer_update e ?row dto fw tw (locked_state e ?row dto ?si)))"
    by simp
  have i: "tl_id ?row = next_id s" by (simp add: pending_row_def)
  note d = executeTransfer_update_Inr[OF u]
  show ?thesis
  proof (rule that[of fw tw])
    show "validateTransferRequest dto = None" by (rule v)
    show "\<forall>x \<in> set (transaction_logs s). tl_idempotencyKey x \<noteq> ?k" by (rule fresh)
    show "find (\<lambda>w. w_id w = fromWalletId dto) (wallets s) = Some fw" using f(1) by simp
    show "find (\<lambda>w. w_id w = toWalletId dto) (wallets s) = Some tw" using f(2) by simp
    show "isActive fw" "isActive tw" "hasAvailableBalance fw (amount dto)" by (rule f)+
    show "Decimal (amount dto) \<noteq> None" "Decimal (w_balance fw) \<noteq> None"
      "Decimal (w_balance tw) \<noteq> None" by (rule d)+
    show "r = \<lparr>success = True, transactionId = next_id s, status = COMPLETED,
          fromWallet = \<lparr>wb_id = w_id fw, newBalance = new_from_balance e dto fw\<rparr>,
          toWallet = \<lparr>wb_id = w_id tw, newBalance = new_to_balance e dto tw\<rparr>,
          timestamp = result_date e\<rparr>"
      using d(4) i by simp
    show "wallets (snd (transfer e dto s)) =
       map (bump (w_id tw) (w_version tw) (new_to_balance e dto tw))
         (map (bump (w_id fw) (w_version fw) (new_from_balance e dto fw)) (wallets s))"
      unfolding fin s3 using d(5) by simp
    show "ledger_entries (snd (transfer e dto s)) =
       ledger_entries s @
         [debit_entry (next_id s) dto (w_id fw) (new_from_balance e dto fw),
          credit_entry (next_id s) dto (w_id tw) (new_to_balance e dto tw)]"
      unfolding fin s3 using d(6) i by simp
    show "transaction_logs (snd (transfer e dto s)) =
       map (set_status e (next_id s) COMPLETED
              (\<lambda>r. r\<lparr>tl_completedAt := Some (completed_date e)\<rparr>))
         (map (set_status e (next_id s) PROCESSING (\<lambda>r. r))
            (transaction_logs s @ [pending_row e dto s]))"
      unfolding fin s3 using d(7) i row by (simp add: set_status_def)
    show "next_id (snd (transfer e dto s)) = Suc (next_id s)"
      unfolding fin s3 by simp
  qed
qed

text \<open>The three ways in which an invocation ends: without a change to the
  tables; with a new row that is \<open>FAILED\<close> and nothing else changed; or
  executed, as \<open>transfer_Inr\<close> describes.\<close>

lemma transfer_outcomes:
  obtains
    (unchanged) "wallets (snd (transfer e dto s)) = wallets s"
      "transaction_logs (snd (transfer e dto s)) = transaction_logs s"
      "ledger_entries (snd (transfer e dto s)) = ledger_entries s"
      "next_id (snd (transfer e dto s)) = next_id s"
      "\<forall>r. fst (checkIdempotency e (idempotencyKey dto) s) = Inr None \<longrightarrow>
           fst (transfer e dto s) \<noteq> Inr r"
  | (failed) err where "fst (transfer e dto s) = Inl err"
      "\<forall>x \<in> set (transaction_logs s). tl_idempotencyKey x \<noteq> idempotencyKey dto"
      "wallets (snd (transfer e dto s)) = wallets s"
      "transaction_logs (snd (transfer e dto s)) =
         map (set_status e (next_id s) FAILED (\<lambda>r. r\<lparr>tl_errorMessage := Some (message err)\<rparr>))
           (transaction_logs s @ [pending_row e dto s])"
      "ledger_entries (snd (transfer e dto s)) = ledger_entries s"
      "next_id (snd (transfer e dto s)) = Suc (next_id s)"
  | (executed) r where "fst (checkIdempotency e (idempotencyKey dto) s) = Inr None"
      "fst (transfer e dto s) = Inr r"
proof -
  let ?k = "idempotencyKey dto"
  let ?s' = "emit (LOG_FIND_ONE ?k) (emit (REDIS_GET (''idempotency:'' @ ?k)) s)"
  show ?thesis
  proof (cases "fst (checkIdempotency e ?k s) = Inr None")
    case False
    obtain c s1 where cs: "checkIdempotency e ?k s = (c, s1)"
      by (cases "checkIdempotency e ?k s")
    then have s1: "s1 = snd (checkIdempotency e ?k s)" by simp
    from False cs have "snd (transfer e dto s) = s1"
      by (cases c) (auto simp: transfer_def split: option.splits)
    with s1 False show ?thesis by (intro unchanged) simp_all
  next
    case ci: True
    from checkIdempotency_None(1)[OF ci] ci
    have cie: "checkIdempotency e ?k s = (Inr None, ?s')"
      by (cases "checkIdempotency e ?k s") simp
    show ?thesis
    proof (cases "validateTransferRequest dto")
      case (Some err)
      then have "transfer e dto s = (Inl err, ?s')" by (simp add: transfer_def cie)
      then show ?thesis by (intro unchanged) simp_all
    next
      case None
      then have t: "transfer e dto s = transfer_protocol e dto ?s'"
        by (simp add: transfer_def cie)
      show ?thesis
      proof (cases "fst (acquireLock e ?k ?s')")
        case False
        from transfer_protocol_refused[OF this] show ?thesis
          by (intro unchanged) (simp_all add: t)
      next
        case l: True
        show ?thesis
        proof (cases "find (\<lambda>r. tl_idempotencyKey r = ?k) (transaction_logs s)")
          case (Some x)
          with checkIdempotency_None(3)[OF ci] have "tl_status x \<noteq> COMPLETED" by blast
          with Some have
            "find (\<lambda>r. tl_idempotencyKey r = ?k) (transaction_logs ?s') = Some x"
            "tl_status x \<noteq> COMPLETED" by simp_all
          note p = transfer_protocol_existing[OF l this]
          show ?thesis using p by (intro unchanged) (simp_all add: t)
        next
          case nf: None
          then have fresh: "\<forall>x \<in> set (transaction_logs s). tl_idempotencyKey x \<noteq> ?k"
            by (auto simp: find_None_iff)
          then have fresh': "\<forall>x \<in> set (transaction_logs ?s'). tl_idempotencyKey x \<noteq> ?k"
            by simp
          let ?row = "pending_row e dto ?s'"
          let ?si = "intent_state e dto ?s'"
          have row: "?row = pending_row e dto s" by (simp add: pending_row_def)
          note p = transfer_protocol_new[OF l fresh']
          obtain r3 s3 where x: "executeTransfer e ?row dto ?si = (r3, s3)"
            by (cases "executeTransfer e ?row dto ?si")
          then have s3: "s3 = snd (executeTransfer e ?row dto ?si)" by simp
          show ?thesis
          proof (cases r3)
            case (Inr r)
            with t p x have "fst (transfer e dto s) = Inr r" by simp
            with ci show ?thesis by (rule executed)
          next
            case (Inl err)
            with x have xe: "fst (executeTransfer e ?row dto ?si) = Inl err" by simp
            note rb = executeTransfer_rollback[OF xe]
            from t p x Inl have fin: "transfer e dto s =
              (Inl err, releaseLock ?k (log_update e (next_id ?s') FAILED
                 (\<lambda>r. r\<lparr>tl_errorMessage := Some (message err)\<rparr>) s3))"
              by simp
            show ?thesis
            proof (rule failed[of err])
              show "fst (transfer e dto s) = Inl err" by (simp add: fin)
              show "\<forall>x \<in> set (transaction_logs s). tl_idempotencyKey x \<noteq> ?k" by (rule fresh)
              show "wallets (snd (transfer e dto s)) = wallets s"
                unfolding fin s3 using rb(1) by simp
              show "ledger_entries (snd (transfer e dto s)) = ledger_entries s"
                unfolding fin s3 using rb(3) by simp
              show "next_id (snd (transfer e dto s)) = Suc (next_id s)"
                unfolding fin s3 by simp
              show "transaction_logs (snd (transfer e dto s)) =
                 map (set_status e (next_id s) FAILED (\<lambda>r. r\<lparr>tl_errorMessage := Some (message err)\<rparr>))
                   (transaction_logs s @ [pending_row e dto s])"
                unfolding fin s3 using rb(2) row by (simp add: set_status_def)
            qed
          qed
        qed
      qed
    qed
  qed
qed

lemma find_bump:
  "find (\<lambda>w. w_id w = i) (map (bump j v b) ws) = map_option (bump j v b) (find (\<lambda>w. w_id w = i) ws)"
  by (rule find_map_same) simp

lemma find_id: "find (\<lambda>w. w_id w = i) ws = Some w \<Longrightarrow> w_id w = i"
  by (auto simp: find_Some_iff)

lemma set_status_fields [simp]:
  "tl_id (set_status e i st (\<lambda>r. r\<lparr>tl_errorMessage := m\<rparr>) r) = tl_id r"
  "tl_id (set_status e i st (\<lambda>r. r\<lparr>tl_completedAt := c\<rparr>) r) = tl_id r"
  "tl_id (set_status e i st (\<lambda>r. r) r) = tl_id r"
  by (simp_all add: set_status_def)

lemma completed_has_pair_cong:
  assumes "filter (\<lambda>l. le_transactionId l = tl_id t) (ledger_entries s') =
           filter (\<lambda>l. le_transactionId l = tl_id t) (ledger_entries s)"
  shows "completed_has_pair s' t = completed_has_pair s t"
  by (simp add: completed_has_pair_def assms)

lemma filter_none: "\<forall>l \<in> set xs. \<not> P l \<Longrightarrow> filter P xs = []"
  by (induction xs) simp_all

text \<open>One invocation keeps the identifiers below the counter and keeps the
  invariant of the ledger.\<close>

lemma invariant_step:
  assumes b: "ids_below_counter s" and inv: "ledger_invariant s"
  shows "ids_below_counter (snd (transfer e dto s)) \<and> ledger_invariant (snd (transfer e dto s))"
proof (cases rule: transfer_outcomes[of e dto s])
  case unchanged
  then have "\<And>t. completed_has_pair (snd (transfer e dto s)) t = completed_has_pair s t"
    by (intro completed_has_pair_cong) simp
  with unchanged b inv show ?thesis
    by (simp add: ids_below_counter_def ledger_invariant_def)
next
  case (failed err)
  let ?s' = "snd (transfer e dto s)"
  let ?F = "set_status e (next_id s) FAILED (\<lambda>r. r\<lparr>tl_errorMessage := Some (message err)\<rparr>)"
  have pc: "\<And>t. completed_has_pair ?s' t = completed_has_pair s t"
    using failed(5) by (intro completed_has_pair_cong) simp
  have ids: "ids_below_counter ?s'"
    using b failed(4,5,6) by (auto simp: ids_below_counter_def less_Suc_eq)
  have "completed_has_pair ?s' t'" if t': "t' \<in> set (transaction_logs ?s')"
    and c: "tl_status t' = COMPLETED" for t'
  proof -
    from t' failed(4) obtain t where t: "t \<in> set (transaction_logs s @ [pending_row e dto s])"
      "t' = ?F t" by auto
    show ?thesis
    proof (cases "tl_id t = next_id s")
      case True
      with t(2) c show ?thesis by (simp add: set_status_def)
    next
      case False
      with t have "t' = t" "t \<in> set (transaction_logs s)" by (auto simp: set_status_def)
      with c inv show ?thesis by (simp add: ledger_invariant_def pc)
    qed
  qed
  with ids show ?thesis by (simp add: ledger_invariant_def)
next
  case (executed r)
  let ?s' = "snd (transfer e dto s)"
  let ?n = "next_id s"
  from executed obtain fw tw where
    f: "find (\<lambda>w. w_id w = fromWalletId dto) (wallets s) = Some fw"
       "find (\<lambda>w. w_id w = toWalletId dto) (wallets s) = Some tw"
    and le: "ledger_entries ?s' =
       ledger_entries s @
         [debit_entry ?n dto (w_id fw) (new_from_balance e dto fw),
          credit_entry ?n dto (w_id tw) (new_to_balance e dto tw)]"
    and lg: "transaction_logs ?s' =
       map (set_status e ?n COMPLETED (\<lambda>r. r\<lparr>tl_completedAt := Some (completed_date e)\<rparr>))
         (map (set_status e ?n PROCESSING (\<lambda>r. r))
            (transaction_logs s @ [pending_row e dto s]))"
    and nx: "next_id ?s' = Suc ?n"
    by (rule transfer_Inr)
  let ?C = "set_status e ?n COMPLETED (\<lambda>r. r\<lparr>tl_completedAt := Some (completed_date e)\<rparr>)"
  let ?P = "set_status e ?n PROCESSING (\<lambda>r. r)"
  let ?d = "debit_entry ?n dto (w_id fw) (new_from_balance e dto fw)"
  let ?c = "credit_entry ?n dto (w_id tw) (new_to_balance e dto tw)"
  from f have wid: "w_id fw = fromWalletId dto" "w_id tw = toWalletId dto"
    by (auto dest: find_id)
  have dc: "le_transactionId ?d = ?n" "le_transactionId ?c = ?n"
    by (simp_all add: debit_entry_def credit_entry_def)
  have ids: "ids_below_counter ?s'"
    using b unfolding ids_below_counter_def le lg nx
    by (auto simp: less_Suc_eq dc)
  from b have old: "\<forall>l \<in> set (ledger_entries s). \<not> le_transactionId l = ?n"
    by (auto simp: ids_below_counter_def)
  have "completed_has_pair ?s' t'" if t': "t' \<in> set (transaction_logs ?s')"
    and c: "tl_status t' = COMPLETED" for t'
  proof -
    from t' lg obtain t where t: "t \<in> set (transaction_logs s @ [pending_row e dto s])"
      "t' = ?C (?P t)" by auto
    show ?thesis
    proof (cases "tl_id t = ?n")
      case False
      with t have eq: "t' = t" and mem: "t \<in> set (transaction_logs s)"
        by (auto simp: set_status_def)
      have "filter (\<lambda>l. le_transactionId l = tl_id t) (ledger_entries ?s') =
            filter (\<lambda>l. le_transactionId l = tl_id t) (ledger_entries s)"
        unfolding le using False by (simp add: dc)
      then have "completed_has_pair ?s' t = completed_has_pair s t"
        by (rule completed_has_pair_cong)
      with c inv mem eq show ?thesis by (simp add: ledger_invariant_def)
    next
      case True
      with b t(1) have tr: "t = pending_row e dto s"
        by (auto simp: ids_below_counter_def)
      have id': "tl_id t' = ?n" using t(2) True by simp
      have "filter (\<lambda>l. le_transactionId l = ?n) (ledger_entries ?s') = [?d, ?c]"
        unfolding le using filter_none[OF old] by (simp add: dc)
      then show ?thesis
        unfolding completed_has_pair_def id'
        by (simp add: t(2) tr set_status_def pending_row_def debit_entry_def credit_entry_def wid)
    qed
  qed
  with ids show ?thesis by (simp add: ledger_invariant_def)
qed

lemma invariant_run:
  "ids_below_counter s \<Longrightarrow> ledger_invariant s \<Longrightarrow>
   ids_below_counter (run cs s) \<and> ledger_invariant (run cs s)"
proof (induction cs arbitrary: s)
  case Nil
  then show ?case by simp
next
  case (Cons c cs)
  from invariant_step[OF Cons.prems, of "fst c" "snd c"] Cons.IH show ?case by simp
qed

lemma initial_invariant:
  assumes "initial s"
  shows "ids_below_counter s" and "ledger_invariant s"
  using assms
  by (auto simp: initial_def ids_below_counter_def ledger_invariant_def list_all_iff)

section \<open>Running the service on the example\<close>

lemmas number_defs = parseFloat_def scan_decimal_def exponent_part_def unsigned_exponent_def
  is_space_def is_digit_def digits_val_def digit_val_def digit_char_def pow10_def Decimal_def
  round_div_def finalise_def precision_def plus_def minus_def toFixed2_def
  ndigits.simps show_nat.simps num_ge_def num_gt_def

lemmas service_defs = transfer_def transfer_protocol_def checkIdempotency_def
  getCachedResult_def validateTransferRequest_def acquireLock_def releaseLock_def
  cacheResult_def IDEMPOTENCY_TTL_def createTransactionLog_def createLedgerEntries_def
  executeTransfer_def executeTransfer_callback_def executeTransfer_update_def
  isActive_def isCompleted_def hasAvailableBalance_def str_or_def opt_or_def
  redis_get_def redis_setex_def redis_set_nx_def redis_del_def log_findOne_def
  log_create_def log_update_def wallet_findByPk_def wallet_update_def ledger_create_def
  emit_def

lemmas example_defs = wallet_A_def wallet_B_def state0_def env0_def request_def
  completed_row_def result1_def state1_def


lemma first_transfer:
  "transfer env0 (request ''t1'' ''A'' ''B'' ''100.00'') state0 = (Inr result1, state1)"
  by (simp add: service_defs number_defs example_defs Let_def)

section \<open>The balance check and the new balances on money strings\<close>

lemma hasAvailableBalance_money:
  assumes "is_money (w_balance w)" and "is_money amt"
  shows "hasAvailableBalance w amt = (cents amt \<le> cents (w_balance w))"
  using assms by (simp add: hasAvailableBalance_def num_ge_def parseFloat_money divide_le_cancel)

lemma new_balances_money:
  assumes "is_money (w_balance fw)" and "is_money (w_balance tw)" and "is_money (amount dto)"
    and "cents (amount dto) \<le> cents (w_balance fw)"
    and "cents (w_balance fw) < 10 ^ 20"
    and "cents (w_balance tw) + cents (amount dto) < 10 ^ 20"
  shows "new_from_balance e dto fw = money_str (cents (w_balance fw) - cents (amount dto))"
    and "new_to_balance e dto tw = money_str (cents (w_balance tw) + cents (amount dto))"
proof -
  let ?a = "int (cents (amount dto))" and ?f = "int (cents (w_balance fw))"
    and ?t = "int (cents (w_balance tw))"
  have "\<bar>?f - ?a\<bar> < 10 ^ 20" using assms(4,5) by simp
  then have m: "minus (rounding_mode e) (?f, - 2) (?a, - 2) = (?f - ?a, - 2)"
    by (rule minus_scale2)
  have "\<bar>?t + ?a\<bar> < 10 ^ 20" using assms(6) by (simp flip: of_nat_add)
  then have p: "plus (rounding_mode e) (?t, - 2) (?a, - 2) = (?t + ?a, - 2)"
    by (rule plus_scale2)
  have "0 \<le> ?f - ?a" using assms(4) by simp
  from toFixed2_scale2[OF this]
  show "new_from_balance e dto fw = money_str (cents (w_balance fw) - cents (amount dto))"
    using assms(1,3,4) by (simp add: new_from_balance_def Decimal_money m nat_diff_distrib')
  have "0 \<le> ?t + ?a" by simp
  from toFixed2_scale2[OF this]
  show "new_to_balance e dto tw = money_str (cents (w_balance tw) + cents (amount dto))"
    using assms(2,3) by (simp add: new_to_balance_def Decimal_money p nat_add_distrib)
qed

lemma money_examples:
  "is_money ''1000.00''" "is_money ''500.00''" "is_money ''99.99''"
  "cents ''1000.00'' = 100000" "cents ''500.00'' = 50000" "cents ''99.99'' = 9999"
  "money_str 90001 = ''900.01''" "money_str 59999 = ''599.99''"
  by (simp_all add: is_money_def cents_def money_str_def is_digit_def digits_val_def
        digit_val_def digit_char_def show_nat.simps)

section \<open>The ledger in runs without overlap\<close>

text \<open>
  Start from a database with no ledger entry and no completed log and let
  \<open>transfer\<close> be invoked any number of times, one invocation after the
  other, with any requests at any times. In the state reached, every
  \<open>COMPLETED\<close> transaction log has exactly two ledger entries with its
  identifier: a \<open>DEBIT\<close> on its source wallet and a \<open>CREDIT\<close> on its
  destination wallet, both with the amount and the currency of the log. And
  when a further invocation executes a request and succeeds, the two entries
  that it appends carry as \<open>balanceAfter\<close> the new balances of the result,
  which are the balances that the source row and the destination row hold
  afterwards. This is a fact about invocations that do not overlap; two
  invocations that overlap can leave the ledger otherwise.
\<close>

lemma sequential_runs_keep_ledger_invariant:
  assumes "initial s"
  shows "ledger_invariant (run cs s) \<and>
         (\<forall>e dto r.
            fst (checkIdempotency e (idempotencyKey dto) (run cs s)) = Inr None \<and>
            fst (transfer e dto (run cs s)) = Inr r \<longrightarrow>
            (\<exists>d c fw' tw'.
               ledger_entries (snd (transfer e dto (run cs s))) =
                 ledger_entries (run cs s) @ [d, c] \<and>
               le_transactionId d = transactionId r \<and> le_transactionId c = transactionId r \<and>
               le_type d = DEBIT \<and> le_walletId d = fromWalletId dto \<and>
               le_type c = CREDIT \<and> le_walletId c = toWalletId dto \<and>
               le_amount d = amount dto \<and> le_amount c = amount dto \<and>
               le_currency d = le_currency c \<and>
               le_balanceAfter d = newBalance (fromWallet r) \<and>
               le_balanceAfter c = newBalance (toWallet r) \<and>
               find (\<lambda>w. w_id w = fromWalletId dto) (wallets (snd (transfer e dto (run cs s)))) =
                 Some fw' \<and>
               find (\<lambda>w. w_id w = toWalletId dto) (wallets (snd (transfer e dto (run cs s)))) =
                 Some tw' \<and>
               w_balance fw' = le_balanceAfter d \<and> w_balance tw' = le_balanceAfter c))"
proof -
  from initial_invariant[OF assms] have inv: "ledger_invariant (run cs s)"
    using invariant_run by blast
  have post: "\<exists>d c fw' tw'.
               ledger_entries (snd (transfer e dto s')) = ledger_entries s' @ [d, c] \<and>
               le_transactionId d = transactionId r \<and> le_transactionId c = transactionId r \<and>
               le_type d = DEBIT \<and> le_walletId d = fromWalletId dto \<and>
               le_type c = CREDIT \<and> le_walletId c = toWalletId dto \<and>
               le_amount d = amount dto \<and> le_amount c = amount dto \<and>
               le_currency d = le_currency c \<and>
               le_balanceAfter d = newBalance (fromWallet r) \<and>
               le_balanceAfter c = newBalance (toWallet r) \<and>
               find (\<lambda>w. w_id w = fromWalletId dto) (wallets (snd (transfer e dto s'))) = Some fw' \<and>
               find (\<lambda>w. w_id w = toWalletId dto) (wallets (snd (transfer e dto s'))) = Some tw' \<and>
               w_balance fw' = le_balanceAfter d \<and> w_balance tw' = le_balanceAfter c"
    if ci: "fst (checkIdempotency e (idempotencyKey dto) s') = Inr None"
      and ok: "fst (transfer e dto s') = Inr r" for e dto r s'
  proof -
    from ci ok obtain fw tw where
      v: "validateTransferRequest dto = None"
      and f: "find (\<lambda>w. w_id w = fromWalletId dto) (wallets s') = Some fw"
         "find (\<lambda>w. w_id w = toWalletId dto) (wallets s') = Some tw"
      and r: "r = \<lparr>success = True, transactionId = next_id s', status = COMPLETED,
          fromWallet = \<lparr>wb_id = w_id fw, newBalance = new_from_balance e dto fw\<rparr>,
          toWallet = \<lparr>wb_id = w_id tw, newBalance = new_to_balance e dto tw\<rparr>,
          timestamp = result_date e\<rparr>"
      and w: "wallets (snd (transfer e dto s')) =
       map (bump (w_id tw) (w_version tw) (new_to_balance e dto tw))
         (map (bump (w_id fw) (w_version fw) (new_from_balance e dto fw)) (wallets s'))"
      and le: "ledger_entries (snd (transfer e dto s')) =
       ledger_entries s' @
         [debit_entry (next_id s') dto (w_id fw) (new_from_balance e dto fw),
          credit_entry (next_id s') dto (w_id tw) (new_to_balance e dto tw)]"
      by (rule transfer_Inr)
    from v have ne: "fromWalletId dto \<noteq> toWalletId dto"
      by (auto simp: validateTransferRequest_def split: if_splits)
    from f have ids: "w_id fw = fromWalletId dto" "w_id tw = toWalletId dto"
      by (auto dest: find_id)
    let ?fw' = "bump (w_id tw) (w_version tw) (new_to_balance e dto tw)
                  (bump (w_id fw) (w_version fw) (new_from_balance e dto fw) fw)"
    let ?tw' = "bump (w_id tw) (w_version tw) (new_to_balance e dto tw)
                  (bump (w_id fw) (w_version fw) (new_from_balance e dto fw) tw)"
    have fd: "find (\<lambda>w. w_id w = fromWalletId dto) (wallets (snd (transfer e dto s'))) = Some ?fw'"
      "find (\<lambda>w. w_id w = toWalletId dto) (wallets (snd (transfer e dto s'))) = Some ?tw'"
      unfolding w by (simp_all add: find_bump f del: map_map)
    have bal: "w_balance ?fw' = new_from_balance e dto fw" "w_balance ?tw' = new_to_balance e dto tw"
      using ne ids by (simp_all add: bump_def)
    show ?thesis
      apply (rule exI[of _ "debit_entry (next_id s') dto (w_id fw) (new_from_balance e dto fw)"])
      apply (rule exI[of _ "credit_entry (next_id s') dto (w_id tw) (new_to_balance e dto tw)"])
      apply (rule exI[of _ ?fw'])
      apply (rule exI[of _ ?tw'])
      apply (simp only: le fd bal)
      apply (simp add: r ids debit_entry_def credit_entry_def)
      done
  qed
  from inv post show ?thesis by blast
qed

text \<open>The example database after its first transfer is such a state.\<close>

lemma sequential_runs_example:
  "initial state0 \<and>
   run [(env0, request ''t1'' ''A'' ''B'' ''100.00'')] state0 = state1 \<and>
   ledger_invariant state1 \<and>
   completed_has_pair state1 completed_row \<and>
   (\<exists>d c fw' tw'.
      ledger_entries (snd (transfer env0 (request ''t1'' ''A'' ''B'' ''100.00'') state0)) = [d, c] \<and>
      le_type d = DEBIT \<and> le_walletId d = ''A'' \<and>
      le_type c = CREDIT \<and> le_walletId c = ''B'' \<and>
      le_amount d = ''100.00'' \<and> le_amount c = ''100.00'' \<and>
      le_balanceAfter d = ''900.00'' \<and> le_balanceAfter c = ''600.00'' \<and>
      find (\<lambda>w. w_id w = ''A'') (wallets (snd (transfer env0 (request ''t1'' ''A'' ''B'' ''100.00'') state0))) = Some fw' \<and>
      find (\<lambda>w. w_id w = ''B'') (wallets (snd (transfer env0 (request ''t1'' ''A'' ''B'' ''100.00'') state0))) = Some tw' \<and>
      w_balance fw' = ''900.00'' \<and> w_balance tw' = ''600.00'')"
proof -
  let ?dto = "request ''t1'' ''A'' ''B'' ''100.00''"
  have i: "initial state0" by (simp add: initial_def state0_def)
  have r: "run [(env0, ?dto)] state0 = state1" by (simp add: first_transfer)
  note th = sequential_runs_keep_ledger_invariant[OF i, of "[(env0, ?dto)]"]
  note th0 = sequential_runs_keep_ledger_invariant[OF i, of "[]"]
  from th r have inv: "ledger_invariant state1" by simp
  have "completed_row \<in> set (transaction_logs state1)" "tl_status completed_row = COMPLETED"
    by (simp_all add: state1_def completed_row_def)
  with inv have p: "completed_has_pair state1 completed_row"
    by (simp add: ledger_invariant_def)
  have ci: "fst (checkIdempotency env0 (idempotencyKey ?dto) (run [] state0)) = Inr None"
    by (simp add: service_defs example_defs)
  have ok: "fst (transfer env0 ?dto (run [] state0)) = Inr result1"
    by (simp add: first_transfer)
  from th0 ci ok have "\<exists>d c fw' tw'.
               ledger_entries (snd (transfer env0 ?dto (run [] state0))) =
                 ledger_entries (run [] state0) @ [d, c] \<and>
               le_transactionId d = transactionId result1 \<and> le_transactionId c = transactionId result1 \<and>
               le_type d = DEBIT \<and> le_walletId d = fromWalletId ?dto \<and>
               le_type c = CREDIT \<and> le_walletId c = toWalletId ?dto \<and>
               le_amount d = amount ?dto \<and> le_amount c = amount ?dto \<and>
               le_currency d = le_currency c \<and>
               le_balanceAfter d = newBalance (fromWallet result1) \<and>
               le_balanceAfter c = newBalance (toWallet result1) \<and>
               find (\<lambda>w. w_id w = fromWalletId ?dto) (wallets (snd (transfer env0 ?dto (run [] state0)))) =
                 Some fw' \<and>
               find (\<lambda>w. w_id w = toWalletId ?dto) (wallets (snd (transfer env0 ?dto (run [] state0)))) =
                 Some tw' \<and>
               w_balance fw' = le_balanceAfter d \<and> w_balance tw' = le_balanceAfter c"
    by blast
  then obtain d c fw' tw' where x:
    "ledger_entries (snd (transfer env0 ?dto state0)) = ledger_entries state0 @ [d, c]"
    "le_type d = DEBIT" "le_walletId d = fromWalletId ?dto"
    "le_type c = CREDIT" "le_walletId c = toWalletId ?dto"
    "le_amount d = amount ?dto" "le_amount c = amount ?dto"
    "le_balanceAfter d = newBalance (fromWallet result1)"
    "le_balanceAfter c = newBalance (toWallet result1)"
    "find (\<lambda>w. w_id w = fromWalletId ?dto) (wallets (snd (transfer env0 ?dto state0))) = Some fw'"
    "find (\<lambda>w. w_id w = toWalletId ?dto) (wallets (snd (transfer env0 ?dto state0))) = Some tw'"
    "w_balance fw' = le_balanceAfter d" "w_balance tw' = le_balanceAfter c"
    by auto
  have e: "ledger_entries state0 = []" "fromWalletId ?dto = ''A''" "toWalletId ?dto = ''B''"
    "amount ?dto = ''100.00''" "newBalance (fromWallet result1) = ''900.00''"
    "newBalance (toWallet result1) = ''600.00''"
    by (simp_all add: state0_def request_def result1_def)
  from x have "\<exists>d c fw' tw'.
      ledger_entries (snd (transfer env0 ?dto state0)) = [d, c] \<and>
      le_type d = DEBIT \<and> le_walletId d = ''A'' \<and>
      le_type c = CREDIT \<and> le_walletId c = ''B'' \<and>
      le_amount d = ''100.00'' \<and> le_amount c = ''100.00'' \<and>
      le_balanceAfter d = ''900.00'' \<and> le_balanceAfter c = ''600.00'' \<and>
      find (\<lambda>w. w_id w = ''A'') (wallets (snd (transfer env0 ?dto state0))) = Some fw' \<and>
      find (\<lambda>w. w_id w = ''B'') (wallets (snd (transfer env0 ?dto state0))) = Some tw' \<and>
      w_balance fw' = ''900.00'' \<and> w_balance tw' = ''600.00''"
    unfolding e by (intro exI[of _ d] exI[of _ c] exI[of _ fw'] exI[of _ tw']) simp
  with i r inv p show ?thesis by blast
qed


text \<open>The invariant is one of runs without overlap only: when the request
  of the example is executed a second time on its completed log, as it is
  when a second worker has passed the idempotency check before the first has
  committed, the invariant holds before and fails after.\<close>

lemma overlapping_run_breaks_ledger_invariant:
  "ledger_invariant state1 \<and>
   \<not> ledger_invariant (snd (transfer_protocol env0 (request ''t1'' ''A'' ''B'' ''100.00'') state1))"
proof -
  let ?s2 = "snd (transfer_protocol env0 (request ''t1'' ''A'' ''B'' ''100.00'') state1)"
  have d: "ledger_invariant state1"
    by (simp add: ledger_invariant_def completed_has_pair_def state1_def completed_row_def)
  have logs: "transaction_logs ?s2 = [completed_row\<lparr>tl_status := COMPLETED, tl_updatedAt := 1000\<rparr>]"
    by (simp add: service_defs number_defs example_defs Let_def)
  have "map le_transactionId (ledger_entries ?s2) = [0, 0, 0, 0]"
    by (simp add: service_defs number_defs example_defs Let_def)
  then obtain l1 l2 l3 l4 where ls: "ledger_entries ?s2 = [l1, l2, l3, l4]"
    and ids: "le_transactionId l1 = 0" "le_transactionId l2 = 0" "le_transactionId l3 = 0"
      "le_transactionId l4 = 0"
    by (auto simp: map_eq_Cons_conv)
  have "\<not> completed_has_pair ?s2 (completed_row\<lparr>tl_status := COMPLETED, tl_updatedAt := 1000\<rparr>)"
    unfolding completed_has_pair_def ls using ids by (simp add: completed_row_def)
  then have "\<not> ledger_invariant ?s2"
    by (simp add: ledger_invariant_def logs completed_row_def)
  with d show ?thesis by blast
qed
section \<open>C1: a duplicate of a completed transfer\<close>

text \<open>
  C1, on the code. Two workers get the same request with the key \<open>t1\<close> on
  the example database. The second worker runs the idempotency check and the
  validation while the first has not committed: nothing is cached, no log is
  completed, the request is valid. The first worker then completes the
  transfer and releases the lease, which leaves \<open>state1\<close>. When the second
  worker goes on from there, its insert of the log fails on the unique key and
  the existing row is \<open>COMPLETED\<close>; \<open>createTransactionLog\<close> returns that
  row, and \<open>transfer\<close> runs \<open>executeTransfer\<close> on it: the 100.00 move a
  second time and the ledger holds four entries for the one transaction.
\<close>

theorem completed_duplicate_is_executed_again:
  "fst (checkIdempotency env0 ''t1'' state0) = Inr None \<and>
   validateTransferRequest (request ''t1'' ''A'' ''B'' ''100.00'') = None \<and>
   transfer env0 (request ''t1'' ''A'' ''B'' ''100.00'') state0 = (Inr result1, state1) \<and>
   fst (createTransactionLog env0 ''t1'' ''A'' ''B'' ''100.00'' ''NGN'' None TRANSFER
          (snd (acquireLock env0 ''t1'' state1))) = Inr completed_row \<and>
   fst (transfer_protocol env0 (request ''t1'' ''A'' ''B'' ''100.00'') state1) =
     Inr \<lparr>success = True, transactionId = 0, status = COMPLETED,
           fromWallet = \<lparr>wb_id = ''A'', newBalance = ''800.00''\<rparr>,
           toWallet = \<lparr>wb_id = ''B'', newBalance = ''700.00''\<rparr>,
           timestamp = 1002\<rparr> \<and>
   map w_balance
     (wallets (snd (transfer_protocol env0 (request ''t1'' ''A'' ''B'' ''100.00'') state1))) =
     [''800.00'', ''700.00''] \<and>
   map (\<lambda>l. (le_transactionId l, le_walletId l, le_type l, le_balanceAfter l))
     (ledger_entries (snd (transfer_protocol env0 (request ''t1'' ''A'' ''B'' ''100.00'') state1))) =
     [(0, ''A'', DEBIT, ''900.00''), (0, ''B'', CREDIT, ''600.00''),
      (0, ''A'', DEBIT, ''800.00''), (0, ''B'', CREDIT, ''700.00'')]"
proof -
  have a: "fst (checkIdempotency env0 ''t1'' state0) = Inr None"
    by (simp add: service_defs example_defs)
  have b: "validateTransferRequest (request ''t1'' ''A'' ''B'' ''100.00'') = None"
    by (simp add: service_defs number_defs example_defs Let_def)
  have c: "fst (createTransactionLog env0 ''t1'' ''A'' ''B'' ''100.00'' ''NGN'' None TRANSFER
          (snd (acquireLock env0 ''t1'' state1))) = Inr completed_row"
    by (simp add: service_defs example_defs Let_def)
  have d: "fst (transfer_protocol env0 (request ''t1'' ''A'' ''B'' ''100.00'') state1) =
     Inr \<lparr>success = True, transactionId = 0, status = COMPLETED,
           fromWallet = \<lparr>wb_id = ''A'', newBalance = ''800.00''\<rparr>,
           toWallet = \<lparr>wb_id = ''B'', newBalance = ''700.00''\<rparr>,
           timestamp = 1002\<rparr>"
    by (simp add: service_defs number_defs example_defs Let_def)
  have e: "map w_balance
     (wallets (snd (transfer_protocol env0 (request ''t1'' ''A'' ''B'' ''100.00'') state1))) =
     [''800.00'', ''700.00'']"
    by (simp add: service_defs number_defs example_defs Let_def)
  have f: "map (\<lambda>l. (le_transactionId l, le_walletId l, le_type l, le_balanceAfter l))
     (ledger_entries (snd (transfer_protocol env0 (request ''t1'' ''A'' ''B'' ''100.00'') state1))) =
     [(0, ''A'', DEBIT, ''900.00''), (0, ''B'', CREDIT, ''600.00''),
      (0, ''A'', DEBIT, ''800.00''), (0, ''B'', CREDIT, ''700.00'')]"
    by (simp add: service_defs number_defs example_defs Let_def)
  from a b c d e f first_transfer show ?thesis by blast
qed

section \<open>C2: the same key again\<close>

text \<open>
  C2, as the code has it. When \<open>transfer\<close> has executed a request (its key
  had no cached and no completed result) and succeeded at time \<open>now e\<close>,
  the same request sent again any number of times before
  \<open>now e + 86400000\<close> milliseconds gets the very same result each time, and
  each of these invocations does nothing but read the result cache: no wallet,
  no transaction log and no ledger entry changes. Once the cached result is
  gone, a request whose key has a \<open>COMPLETED\<close> row is answered by
  \<open>getCachedResult\<close> from that row and the wallets as they are now (or
  fails when a wallet is missing or inactive); it reads the cache, the log and
  the two wallets and changes nothing.
\<close>

theorem replay_returns_cached_result:
  assumes "fst (checkIdempotency e (idempotencyKey dto) s) = Inr None"
    and "transfer e dto s = (Inr r, s1)"
    and "\<forall>e' \<in> set es. now e' < now e + 86400000"
  shows "transfer_n es dto s1 =
           (replicate (length es) (Inr r),
            s1\<lparr>trace := trace s1 @
                  replicate (length es) (REDIS_GET (''idempotency:'' @ idempotencyKey dto))\<rparr>) \<and>
         (\<forall>e' s' t.
            fst (redis_get e' (idempotencyKey dto) s') = None \<and>
            find (\<lambda>x. tl_idempotencyKey x = idempotencyKey dto) (transaction_logs s') = Some t \<and>
            tl_status t = COMPLETED \<longrightarrow>
            transfer e' dto s' =
              (fst (getCachedResult t s'),
               s'\<lparr>trace := trace s' @ [REDIS_GET (''idempotency:'' @ idempotencyKey dto),
                                        LOG_FIND_ONE (idempotencyKey dto),
                                        WALLET_SELECT (tl_fromWalletId t),
                                        WALLET_SELECT (tl_toWalletId t)]\<rparr>))"
proof -
  let ?k = "idempotencyKey dto"
  let ?s' = "emit (LOG_FIND_ONE ?k) (emit (REDIS_GET (''idempotency:'' @ ?k)) s)"
  from checkIdempotency_None(1)[OF assms(1)] assms(1)
  have ci: "checkIdempotency e ?k s = (Inr None, ?s')"
    by (cases "checkIdempotency e ?k s") simp
  have v: "validateTransferRequest dto = None"
  proof (cases "validateTransferRequest dto")
    case (Some err)
    with assms(2) ci show ?thesis by (simp add: transfer_def)
  qed simp
  from assms(2) have p: "transfer_protocol e dto ?s' = (Inr r, s1)"
    by (simp add: transfer_def ci v)
  then have "fst (transfer_protocol e dto ?s') = Inr r" by simp
  from transfer_protocol_caches[OF this] p
  have "map_of (idempotency_cache s1) ?k = Some (r, now e + 86400000)" by simp
  from transfer_n_cached[OF this assms(3)] transfer_completed_row
  show ?thesis by blast
qed

theorem replay_returns_cached_result_witness:
  "fst (transfer_n [env0\<lparr>now := 2000\<rparr>, env0\<lparr>now := 86400999\<rparr>]
          (request ''t1'' ''A'' ''B'' ''100.00'') state1) = [Inr result1, Inr result1] \<and>
   ledger_entries (snd (transfer_n [env0\<lparr>now := 2000\<rparr>, env0\<lparr>now := 86400999\<rparr>]
          (request ''t1'' ''A'' ''B'' ''100.00'') state1)) = ledger_entries state1 \<and>
   wallets (snd (transfer_n [env0\<lparr>now := 2000\<rparr>, env0\<lparr>now := 86400999\<rparr>]
          (request ''t1'' ''A'' ''B'' ''100.00'') state1)) = wallets state1 \<and>
   fst (transfer (env0\<lparr>now := 90000000\<rparr>) (request ''t1'' ''A'' ''B'' ''100.00'') state1) =
     Inr (result1\<lparr>timestamp := 1001\<rparr>) \<and>
   ledger_entries (snd (transfer (env0\<lparr>now := 90000000\<rparr>)
          (request ''t1'' ''A'' ''B'' ''100.00'') state1)) = ledger_entries state1"
proof -
  let ?dto = "request ''t1'' ''A'' ''B'' ''100.00''"
  let ?es = "[env0\<lparr>now := 2000\<rparr>, env0\<lparr>now := 86400999\<rparr>]"
  have a: "fst (checkIdempotency env0 (idempotencyKey ?dto) state0) = Inr None"
    by (simp add: service_defs example_defs)
  have b: "\<forall>e' \<in> set ?es. now e' < now env0 + 86400000"
    by (simp add: env0_def)
  note th = replay_returns_cached_result[OF a first_transfer b]
  have c: "fst (redis_get (env0\<lparr>now := 90000000\<rparr>) (idempotencyKey ?dto) state1) = None"
    by (simp add: redis_get_def example_defs)
  have d: "find (\<lambda>x. tl_idempotencyKey x = idempotencyKey ?dto) (transaction_logs state1) =
             Some completed_row"
    by (simp add: example_defs)
  have e: "tl_status completed_row = COMPLETED" by (simp add: completed_row_def)
  from th c d e
  have t: "transfer (env0\<lparr>now := 90000000\<rparr>) ?dto state1 =
              (fst (getCachedResult completed_row state1),
               state1\<lparr>trace := trace state1 @ [REDIS_GET (''idempotency:'' @ idempotencyKey ?dto),
                                        LOG_FIND_ONE (idempotencyKey ?dto),
                                        WALLET_SELECT (tl_fromWalletId completed_row),
                                        WALLET_SELECT (tl_toWalletId completed_row)]\<rparr>)"
    by blast
  have g: "fst (getCachedResult completed_row state1) = Inr (result1\<lparr>timestamp := 1001\<rparr>)"
    by (simp add: getCachedResult_def wallet_findByPk_def emit_def isActive_def example_defs)
  from th have n: "transfer_n ?es ?dto state1 =
           (replicate (length ?es) (Inr result1),
            state1\<lparr>trace := trace state1 @
                  replicate (length ?es) (REDIS_GET (''idempotency:'' @ idempotencyKey ?dto))\<rparr>)"
    by blast
  show ?thesis
    unfolding n t g by simp
qed

text \<open>
  C2, as the specification states it, fails once the cached result has
  expired. On the example database the transfer \<open>t1\<close> of 100.00 from
  \<open>A\<close> to \<open>B\<close> succeeds with the new balances 900.00 and 600.00. A
  second transfer \<open>t2\<close> of 50.00 follows. More than 24 hours after the
  first success the request \<open>t1\<close> is sent again: it is answered from the
  completed row with the balances that the wallets have now, 850.00 and
  650.00, and with the completion date of the row as timestamp.
\<close>

theorem replay_after_expiry_differs:
  "fst (transfer env0 (request ''t1'' ''A'' ''B'' ''100.00'') state0) =
     Inr \<lparr>success = True, transactionId = 0, status = COMPLETED,
           fromWallet = \<lparr>wb_id = ''A'', newBalance = ''900.00''\<rparr>,
           toWallet = \<lparr>wb_id = ''B'', newBalance = ''600.00''\<rparr>,
           timestamp = 1002\<rparr> \<and>
   fst (transfer (env0\<lparr>now := 90000000\<rparr>) (request ''t1'' ''A'' ''B'' ''100.00'')
          (snd (transfer (env0\<lparr>now := 2000\<rparr>) (request ''t2'' ''A'' ''B'' ''50.00'')
             (snd (transfer env0 (request ''t1'' ''A'' ''B'' ''100.00'') state0))))) =
     Inr \<lparr>success = True, transactionId = 0, status = COMPLETED,
           fromWallet = \<lparr>wb_id = ''A'', newBalance = ''850.00''\<rparr>,
           toWallet = \<lparr>wb_id = ''B'', newBalance = ''650.00''\<rparr>,
           timestamp = 1001\<rparr>"
  by (simp add: service_defs number_defs example_defs Let_def)

section \<open>C3: the order of the row locks\<close>

lemma locked_ids_append [simp]: "locked_ids (xs @ ys) = locked_ids xs @ locked_ids ys"
  by (induction xs rule: locked_ids.induct) simp_all

text \<open>
  C3, as the code has it. Inside the serializable section the source wallet is
  always locked first. The destination wallet is locked second, when the
  source row exists and is active; otherwise the section ends with the source
  lock alone. The order of the two identifiers plays no part.
\<close>

theorem source_wallet_locked_first:
  "locked_ids (trace (snd (executeTransfer e t dto s))) =
     locked_ids (trace s) @
       (if \<exists>fw. find (\<lambda>w. w_id w = fromWalletId dto) (wallets s) = Some fw \<and> isActive fw
        then [fromWalletId dto, toWalletId dto]
        else [fromWalletId dto])"
  by (simp add: executeTransfer_def executeTransfer_callback_def executeTransfer_update_def
        Let_def case_prod_beta split: option.splits sum.splits)

theorem source_wallet_locked_first_witness:
  "locked_ids (trace (snd (executeTransfer env0 (pending_row env0 (request ''t5'' ''A'' ''B'' ''10.00'') state0)
       (request ''t5'' ''A'' ''B'' ''10.00'') state0))) = [''A'', ''B'']"
proof -
  have "\<exists>fw. find (\<lambda>w. w_id w = fromWalletId (request ''t5'' ''A'' ''B'' ''10.00'')) (wallets state0) = Some fw \<and> isActive fw"
    by (simp add: example_defs isActive_def)
  with source_wallet_locked_first[of env0 "pending_row env0 (request ''t5'' ''A'' ''B'' ''10.00'') state0"
      "request ''t5'' ''A'' ''B'' ''10.00''" state0]
  show ?thesis by (simp add: request_def state0_def)
qed

text \<open>
  C3, as the specification states it, fails. In the transfer from \<open>B\<close> to
  \<open>A\<close> of scenario S5 the destination identifier is the smaller one, and the
  rows are locked in the order \<open>B\<close>, \<open>A\<close>: the source first.
\<close>

theorem locks_not_in_ascending_order:
  "''A'' < ''B'' \<and>
   locked_ids (trace (snd (transfer env0 (request ''t5'' ''B'' ''A'' ''10.00'') state0))) =
     [''B'', ''A'']"
  by (simp add: service_defs number_defs example_defs Let_def less_char_def)

section \<open>C4: the ledger entries of a completed transfer\<close>

text \<open>
  C4, on the code. The invariant of the ledger does not hold in every state
  that the code reaches. Two workers get the same request with the key
  \<open>t1\<close> on the example database. The second worker runs the idempotency
  check and the validation while the first has not committed: nothing is
  cached, no log is completed, the request is valid. The first worker then
  completes the transfer and releases the lease; this is \<open>state1\<close>, in
  which the completed log has its debit and its credit. The second worker goes
  on from there with the lease, the insert of the log (which fails on the
  unique key and comes back with the completed row) and \<open>executeTransfer\<close>
  on that row. In the state that it leaves, the one transaction log of the
  database is \<open>COMPLETED\<close> and four ledger entries carry its identifier:
  two debits on \<open>A\<close> and two credits on \<open>B\<close>, the first pair with the
  balances 900.00 and 600.00 and the second with 800.00 and 700.00; the log
  no longer has exactly one debit and one credit (\<open>completed_has_pair\<close>).
\<close>

theorem duplicate_execution_leaves_four_ledger_entries:
  "fst (checkIdempotency env0 ''t1'' state0) = Inr None \<and>
   validateTransferRequest (request ''t1'' ''A'' ''B'' ''100.00'') = None \<and>
   snd (transfer env0 (request ''t1'' ''A'' ''B'' ''100.00'') state0) = state1 \<and>
   map (\<lambda>t. (tl_id t, tl_idempotencyKey t, tl_status t, completed_has_pair state1 t))
     (transaction_logs state1) = [(0, ''t1'', COMPLETED, True)] \<and>
   map (\<lambda>t. (tl_id t, tl_idempotencyKey t, tl_status t,
              completed_has_pair
                (snd (transfer_protocol env0 (request ''t1'' ''A'' ''B'' ''100.00'') state1)) t))
     (transaction_logs (snd (transfer_protocol env0 (request ''t1'' ''A'' ''B'' ''100.00'') state1))) =
     [(0, ''t1'', COMPLETED, False)] \<and>
   map (\<lambda>l. (le_walletId l, le_type l, le_amount l, le_balanceAfter l))
     (filter (\<lambda>l. le_transactionId l = 0)
        (ledger_entries (snd (transfer_protocol env0 (request ''t1'' ''A'' ''B'' ''100.00'') state1)))) =
     [(''A'', DEBIT, ''100.00'', ''900.00''), (''B'', CREDIT, ''100.00'', ''600.00''),
      (''A'', DEBIT, ''100.00'', ''800.00''), (''B'', CREDIT, ''100.00'', ''700.00'')]"
proof -
  let ?dto = "request ''t1'' ''A'' ''B'' ''100.00''"
  let ?s2 = "snd (transfer_protocol env0 ?dto state1)"
  have a: "fst (checkIdempotency env0 ''t1'' state0) = Inr None"
    by (simp add: service_defs example_defs)
  have b: "validateTransferRequest ?dto = None"
    by (simp add: service_defs number_defs example_defs Let_def)
  have c: "snd (transfer env0 ?dto state0) = state1"
    by (simp add: first_transfer)
  have d: "map (\<lambda>t. (tl_id t, tl_idempotencyKey t, tl_status t, completed_has_pair state1 t))
     (transaction_logs state1) = [(0, ''t1'', COMPLETED, True)]"
    by (simp add: completed_has_pair_def state1_def completed_row_def)
  have logs: "transaction_logs ?s2 = [completed_row\<lparr>tl_status := COMPLETED, tl_updatedAt := 1000\<rparr>]"
    by (simp add: service_defs number_defs example_defs Let_def)
  have le: "map (\<lambda>l. (le_transactionId l, le_walletId l, le_type l, le_amount l, le_balanceAfter l))
       (ledger_entries ?s2) =
     [(0, ''A'', DEBIT, ''100.00'', ''900.00''), (0, ''B'', CREDIT, ''100.00'', ''600.00''),
      (0, ''A'', DEBIT, ''100.00'', ''800.00''), (0, ''B'', CREDIT, ''100.00'', ''700.00'')]"
    by (simp add: service_defs number_defs example_defs Let_def)
  then obtain l1 l2 l3 l4 where ls: "ledger_entries ?s2 = [l1, l2, l3, l4]"
    and ids: "le_transactionId l1 = 0" "le_transactionId l2 = 0" "le_transactionId l3 = 0"
      "le_transactionId l4 = 0"
    and rest: "map (\<lambda>l. (le_walletId l, le_type l, le_amount l, le_balanceAfter l)) [l1, l2, l3, l4] =
     [(''A'', DEBIT, ''100.00'', ''900.00''), (''B'', CREDIT, ''100.00'', ''600.00''),
      (''A'', DEBIT, ''100.00'', ''800.00''), (''B'', CREDIT, ''100.00'', ''700.00'')]"
    by (auto simp: map_eq_Cons_conv)
  have f: "map (\<lambda>l. (le_walletId l, le_type l, le_amount l, le_balanceAfter l))
     (filter (\<lambda>l. le_transactionId l = 0) (ledger_entries ?s2)) =
     [(''A'', DEBIT, ''100.00'', ''900.00''), (''B'', CREDIT, ''100.00'', ''600.00''),
      (''A'', DEBIT, ''100.00'', ''800.00''), (''B'', CREDIT, ''100.00'', ''700.00'')]"
    unfolding ls using ids rest by simp
  have "\<not> completed_has_pair ?s2 (completed_row\<lparr>tl_status := COMPLETED, tl_updatedAt := 1000\<rparr>)"
    unfolding completed_has_pair_def ls using ids by (simp add: completed_row_def)
  then have e: "map (\<lambda>t. (tl_id t, tl_idempotencyKey t, tl_status t, completed_has_pair ?s2 t))
     (transaction_logs ?s2) = [(0, ''t1'', COMPLETED, False)]"
    unfolding logs by (simp add: completed_row_def)
  from a b c d e f show ?thesis by blast
qed
section \<open>C5: insufficient funds\<close>

lemma executeTransfer_update_not_insufficient:
  "fst (executeTransfer_update e t dto fw tw s) \<noteq> Inl (InsufficientFunds x y)"
  by (simp add: executeTransfer_update_def Let_def case_prod_beta split: option.splits)

text \<open>
  C5. Let the key of a valid request be new (no cached result, no row of that
  key), the lease free, and both wallets present and \<open>ACTIVE\<close>, with a
  source balance and an amount that are money strings. Then \<open>transfer\<close>
  fails with \<open>InsufficientFunds\<close>, carrying the source balance as available
  and the amount as required, exactly when the balance is less than the amount
  as exact values in hundredths. In that case the transaction is rolled back:
  the wallets and the ledger are as before, the row of the key is the inserted
  row with status \<open>FAILED\<close> and the message of the error, and the trace is
  the idempotency check, the lease, the insert, the transaction with the
  update to \<open>PROCESSING\<close> and the two locked reads, its rollback, the
  update to \<open>FAILED\<close> and the release of the lease.
\<close>

theorem insufficient_funds_exactly_when_balance_less:
  assumes "fst (checkIdempotency e (idempotencyKey dto) s) = Inr None"
    and "validateTransferRequest dto = None"
    and "fst (acquireLock e (idempotencyKey dto) s)"
    and "\<forall>x \<in> set (transaction_logs s). tl_idempotencyKey x \<noteq> idempotencyKey dto"
    and "find (\<lambda>w. w_id w = fromWalletId dto) (wallets s) = Some fw"
    and "find (\<lambda>w. w_id w = toWalletId dto) (wallets s) = Some tw"
    and "isActive fw" and "isActive tw"
    and "is_money (w_balance fw)" and "is_money (amount dto)"
  shows "(fst (transfer e dto s) = Inl (InsufficientFunds (w_balance fw) (amount dto))) =
           (cents (w_balance fw) < cents (amount dto)) \<and>
         (cents (w_balance fw) < cents (amount dto) \<longrightarrow>
            wallets (snd (transfer e dto s)) = wallets s \<and>
            ledger_entries (snd (transfer e dto s)) = ledger_entries s \<and>
            find (\<lambda>x. tl_idempotencyKey x = idempotencyKey dto)
                (transaction_logs (snd (transfer e dto s))) =
              Some ((pending_row e dto s)
                      \<lparr>tl_status := FAILED,
                       tl_errorMessage := Some ''Wallet balance insufficient for transfer''\<rparr>) \<and>
            trace (snd (transfer e dto s)) =
              trace s @
                [REDIS_GET (''idempotency:'' @ idempotencyKey dto),
                 LOG_FIND_ONE (idempotencyKey dto),
                 REDIS_SET_NX (''lock:'' @ idempotencyKey dto),
                 LOG_INSERT (idempotencyKey dto) (amount dto),
                 TX_BEGIN, LOG_UPDATE (next_id s) PROCESSING,
                 WALLET_SELECT_FOR_UPDATE (fromWalletId dto),
                 WALLET_SELECT_FOR_UPDATE (toWalletId dto),
                 TX_ROLLBACK, LOG_UPDATE (next_id s) FAILED,
                 REDIS_DEL (''lock:'' @ idempotencyKey dto)])"
proof -
  let ?k = "idempotencyKey dto"
  let ?s' = "emit (LOG_FIND_ONE ?k) (emit (REDIS_GET (''idempotency:'' @ ?k)) s)"
  let ?row = "pending_row e dto ?s'"
  let ?si = "intent_state e dto ?s'"
  let ?ins = "InsufficientFunds (w_balance fw) (amount dto)"
  from checkIdempotency_None(1)[OF assms(1)] assms(1)
  have cie: "checkIdempotency e ?k s = (Inr None, ?s')"
    by (cases "checkIdempotency e ?k s") simp
  have t: "transfer e dto s = transfer_protocol e dto ?s'"
    by (simp add: transfer_def cie assms(2))
  have l: "fst (acquireLock e ?k ?s')" using assms(3) by simp
  have fresh': "\<forall>x \<in> set (transaction_logs ?s'). tl_idempotencyKey x \<noteq> ?k"
    using assms(4) by simp
  note p = transfer_protocol_new[OF l fresh']
  have f: "find (\<lambda>w. w_id w = fromWalletId dto) (wallets ?si) = Some fw"
    "find (\<lambda>w. w_id w = toWalletId dto) (wallets ?si) = Some tw"
    using assms(5,6) by simp_all
  note cb = executeTransfer_callback_checked[OF f assms(7,8), of e ?row]
  have h: "hasAvailableBalance fw (amount dto) = (cents (amount dto) \<le> cents (w_balance fw))"
    using assms(9,10) by (rule hasAvailableBalance_money)
  show ?thesis
  proof (cases "cents (w_balance fw) < cents (amount dto)")
    case True
    then have nh: "\<not> hasAvailableBalance fw (amount dto)" by (simp add: h)
    have x: "executeTransfer e ?row dto ?si =
               (Inl ?ins,
                emit TX_ROLLBACK
                  ((locked_state e ?row dto ?si)
                     \<lparr>wallets := wallets ?si, transaction_logs := transaction_logs ?si,
                      ledger_entries := ledger_entries ?si\<rparr>))"
      using cb nh by (simp add: executeTransfer_def)
    let ?fin = "releaseLock ?k (log_update e (next_id ?s') FAILED
                  (\<lambda>r. r\<lparr>tl_errorMessage := Some (message ?ins)\<rparr>)
                  (emit TX_ROLLBACK
                  ((locked_state e ?row dto ?si)
                     \<lparr>wallets := wallets ?si, transaction_logs := transaction_logs ?si,
                      ledger_entries := ledger_entries ?si\<rparr>)))"
    have fin: "transfer e dto s = (Inl ?ins, ?fin)"
      using t p x by simp
    have logs: "transaction_logs ?fin =
        map (set_status e (next_id s) FAILED
               (\<lambda>r. r\<lparr>tl_errorMessage := Some ''Wallet balance insufficient for transfer''\<rparr>))
          (transaction_logs s @ [pending_row e dto s])"
      by (simp add: set_status_def)
    have "find (\<lambda>x. tl_idempotencyKey x = ?k) (transaction_logs ?fin) =
            map_option (set_status e (next_id s) FAILED
               (\<lambda>r. r\<lparr>tl_errorMessage := Some ''Wallet balance insufficient for transfer''\<rparr>))
              (find (\<lambda>x. tl_idempotencyKey x = ?k) (transaction_logs s @ [pending_row e dto s]))"
      unfolding logs by (rule find_map_same) simp
    also have "find (\<lambda>x. tl_idempotencyKey x = ?k) (transaction_logs s @ [pending_row e dto s]) =
                 Some (pending_row e dto s)"
      using assms(4) by (intro find_key_fresh) simp_all
    finally have fl: "find (\<lambda>x. tl_idempotencyKey x = ?k) (transaction_logs ?fin) =
         Some ((pending_row e dto s)
                      \<lparr>tl_status := FAILED,
                       tl_errorMessage := Some ''Wallet balance insufficient for transfer''\<rparr>)"
      by (simp add: set_status_def pending_row_def)
    have tr: "trace ?fin = trace s @
                [REDIS_GET (''idempotency:'' @ ?k), LOG_FIND_ONE ?k,
                 REDIS_SET_NX (''lock:'' @ ?k), LOG_INSERT ?k (amount dto),
                 TX_BEGIN, LOG_UPDATE (next_id s) PROCESSING,
                 WALLET_SELECT_FOR_UPDATE (fromWalletId dto),
                 WALLET_SELECT_FOR_UPDATE (toWalletId dto),
                 TX_ROLLBACK, LOG_UPDATE (next_id s) FAILED,
                 REDIS_DEL (''lock:'' @ ?k)]"
      by simp
    have w: "wallets ?fin = wallets s" "ledger_entries ?fin = ledger_entries s" by simp_all
    from True fl tr w show ?thesis unfolding fin by simp
  next
    case False
    then have hh: "hasAvailableBalance fw (amount dto)" by (simp add: h)
    obtain r3 s3 where u: "executeTransfer_update e ?row dto fw tw (locked_state e ?row dto ?si) = (r3, s3)"
      by (cases "executeTransfer_update e ?row dto fw tw (locked_state e ?row dto ?si)")
    with executeTransfer_update_not_insufficient[of e ?row dto fw tw "locked_state e ?row dto ?si"
        "w_balance fw" "amount dto"]
    have ne: "r3 \<noteq> Inl ?ins" by simp
    have "fst (executeTransfer e ?row dto ?si) = r3"
      using cb hh u by (cases r3) (simp_all add: executeTransfer_def)
    with t p have "fst (transfer e dto s) = r3"
      by (cases r3) (simp_all add: case_prod_beta)
    with ne False show ?thesis by simp
  qed
qed

theorem insufficient_funds_exactly_when_balance_less_witness:
  "cents ''1000.00'' < cents ''5000.00'' \<and>
   fst (transfer env0 (request ''t3'' ''A'' ''B'' ''5000.00'') state0) =
     Inl (InsufficientFunds ''1000.00'' ''5000.00'') \<and>
   wallets (snd (transfer env0 (request ''t3'' ''A'' ''B'' ''5000.00'') state0)) = wallets state0 \<and>
   ledger_entries (snd (transfer env0 (request ''t3'' ''A'' ''B'' ''5000.00'') state0)) = [] \<and>
   map tl_status (transaction_logs (snd (transfer env0 (request ''t3'' ''A'' ''B'' ''5000.00'') state0))) =
     [FAILED] \<and>
   \<not> cents ''1000.00'' < cents ''100.00'' \<and>
   fst (transfer env0 (request ''t3'' ''A'' ''B'' ''100.00'') state0) \<noteq>
     Inl (InsufficientFunds ''1000.00'' ''100.00'')"
proof -
  have m: "is_money ''1000.00''" "is_money ''5000.00''" "is_money ''100.00''"
    "cents ''1000.00'' = 100000" "cents ''5000.00'' = 500000" "cents ''100.00'' = 10000"
    by (simp_all add: is_money_def cents_def is_digit_def digits_val_def digit_val_def)
  have pre: "fst (checkIdempotency env0 (idempotencyKey (request ''t3'' ''A'' ''B'' a)) state0) = Inr None"
    "fst (acquireLock env0 (idempotencyKey (request ''t3'' ''A'' ''B'' a)) state0)"
    "\<forall>x \<in> set (transaction_logs state0). tl_idempotencyKey x \<noteq> idempotencyKey (request ''t3'' ''A'' ''B'' a)"
    "find (\<lambda>w. w_id w = fromWalletId (request ''t3'' ''A'' ''B'' a)) (wallets state0) = Some wallet_A"
    "find (\<lambda>w. w_id w = toWalletId (request ''t3'' ''A'' ''B'' a)) (wallets state0) = Some wallet_B"
    "isActive wallet_A" "isActive wallet_B"
    "is_money (w_balance wallet_A)"
    for a
    by (simp_all add: service_defs example_defs m)
  have v: "validateTransferRequest (request ''t3'' ''A'' ''B'' ''5000.00'') = None"
    "validateTransferRequest (request ''t3'' ''A'' ''B'' ''100.00'') = None"
    by (simp_all add: validateTransferRequest_def request_def number_defs)
  have am: "is_money (amount (request ''t3'' ''A'' ''B'' ''5000.00''))"
    "is_money (amount (request ''t3'' ''A'' ''B'' ''100.00''))"
    by (simp_all add: request_def m)
  note big = insufficient_funds_exactly_when_balance_less[OF pre(1) v(1) pre(2-8) am(1)]
  note small = insufficient_funds_exactly_when_balance_less[OF pre(1) v(2) pre(2-8) am(2)]
  have b: "w_balance wallet_A = ''1000.00''" by (simp add: wallet_A_def)
  have a: "amount (request ''t3'' ''A'' ''B'' x) = x" for x by (simp add: request_def)
  have lt: "cents ''1000.00'' < cents ''5000.00''" "\<not> cents ''1000.00'' < cents ''100.00''"
    by (simp_all add: m)
  from big lt(1) have
    b1: "fst (transfer env0 (request ''t3'' ''A'' ''B'' ''5000.00'') state0) =
       Inl (InsufficientFunds ''1000.00'' ''5000.00'')"
    and b2: "wallets (snd (transfer env0 (request ''t3'' ''A'' ''B'' ''5000.00'') state0)) = wallets state0"
    and b3: "ledger_entries (snd (transfer env0 (request ''t3'' ''A'' ''B'' ''5000.00'') state0)) =
       ledger_entries state0"
    unfolding a b by simp_all
  have b4: "map tl_status (transaction_logs (snd (transfer env0 (request ''t3'' ''A'' ''B'' ''5000.00'') state0))) =
     [FAILED]"
    by (simp add: service_defs number_defs example_defs Let_def)
  from small lt(2) have
    s1: "fst (transfer env0 (request ''t3'' ''A'' ''B'' ''100.00'') state0) \<noteq>
       Inl (InsufficientFunds ''1000.00'' ''100.00'')"
    unfolding a b by simp
  from lt b1 b2 b3 b4 s1 show ?thesis by (simp add: state0_def)
qed

section \<open>C6: the version predicate\<close>

text \<open>
  C6. Each of the two wallet updates names the version that was read: it
  changes the rows of that identifier and that version only and sets the
  version to the one read plus one. When the first or the second of them finds
  no such row, the section from the updates on fails with the
  \<open>ConflictException\<close> of the version conflict. Whenever
  \<open>executeTransfer\<close> fails, the wallets, the logs and the ledger are as they
  were when the transaction began, and whenever \<open>transfer\<close> fails the
  wallets and the ledger are unchanged. Whenever \<open>transfer\<close> executes a
  request and succeeds, the source row and the destination row each have the
  version they had plus one.
\<close>

theorem version_conflict_and_monotonicity:
  "(Decimal (amount dto) \<noteq> None \<and> Decimal (w_balance fw) \<noteq> None \<and>
    Decimal (w_balance tw) \<noteq> None \<and>
    (\<not> (\<exists>w \<in> set (wallets s). w_id w = w_id fw \<and> w_version w = w_version fw) \<or>
     w_id fw \<noteq> w_id tw \<and>
     \<not> (\<exists>w \<in> set (wallets s). w_id w = w_id tw \<and> w_version w = w_version tw)) \<longrightarrow>
      fst (executeTransfer_update e t dto fw tw s) =
        Inl (ConflictException ''Wallet was modified by another transaction. Please retry.'')) \<and>
   (wallets (snd (wallet_update i x b (x + 1) s)) = map (bump i x b) (wallets s)) \<and>
   (\<forall>err. fst (executeTransfer e t dto s) = Inl err \<longrightarrow>
      wallets (snd (executeTransfer e t dto s)) = wallets s \<and>
      transaction_logs (snd (executeTransfer e t dto s)) = transaction_logs s \<and>
      ledger_entries (snd (executeTransfer e t dto s)) = ledger_entries s) \<and>
   (\<forall>err. fst (transfer e dto s) = Inl err \<longrightarrow>
      wallets (snd (transfer e dto s)) = wallets s \<and>
      ledger_entries (snd (transfer e dto s)) = ledger_entries s) \<and>
   (\<forall>r. fst (checkIdempotency e (idempotencyKey dto) s) = Inr None \<and>
        fst (transfer e dto s) = Inr r \<longrightarrow>
      (\<exists>fw tw fw' tw'.
         find (\<lambda>w. w_id w = fromWalletId dto) (wallets s) = Some fw \<and>
         find (\<lambda>w. w_id w = toWalletId dto) (wallets s) = Some tw \<and>
         find (\<lambda>w. w_id w = fromWalletId dto) (wallets (snd (transfer e dto s))) = Some fw' \<and>
         find (\<lambda>w. w_id w = toWalletId dto) (wallets (snd (transfer e dto s))) = Some tw' \<and>
         w_version fw' = w_version fw + 1 \<and> w_version tw' = w_version tw + 1))"
proof -
  have a: "fst (executeTransfer_update e t dto fw tw s) =
        Inl (ConflictException ''Wallet was modified by another transaction. Please retry.'')"
    if d: "Decimal (amount dto) \<noteq> None" "Decimal (w_balance fw) \<noteq> None"
      "Decimal (w_balance tw) \<noteq> None"
    and z: "\<not> (\<exists>w \<in> set (wallets s). w_id w = w_id fw \<and> w_version w = w_version fw) \<or>
     w_id fw \<noteq> w_id tw \<and>
     \<not> (\<exists>w \<in> set (wallets s). w_id w = w_id tw \<and> w_version w = w_version tw)"
  proof -
    from d obtain a bf bt where dd: "Decimal (amount dto) = Some a"
      "Decimal (w_balance fw) = Some bf" "Decimal (w_balance tw) = Some bt" by auto
    from z show ?thesis
      by (auto simp: executeTransfer_update_def dd Let_def case_prod_beta filter_empty_conv)
  qed
  have b: "wallets (snd (wallet_update i x b (x + 1) s)) = map (bump i x b) (wallets s)"
    by (simp add: bump_def)
  have c: "wallets (snd (executeTransfer e t dto s)) = wallets s \<and>
      transaction_logs (snd (executeTransfer e t dto s)) = transaction_logs s \<and>
      ledger_entries (snd (executeTransfer e t dto s)) = ledger_entries s"
    if "fst (executeTransfer e t dto s) = Inl err" for err
    using executeTransfer_rollback[OF that] by simp
  have d: "wallets (snd (transfer e dto s)) = wallets s \<and>
      ledger_entries (snd (transfer e dto s)) = ledger_entries s"
    if f: "fst (transfer e dto s) = Inl err" for err
  proof (cases rule: transfer_outcomes[of e dto s])
    case unchanged
    then show ?thesis by simp
  next
    case (failed err)
    then show ?thesis by simp
  next
    case (executed r)
    with f show ?thesis by simp
  qed
  have m: "\<exists>fw tw fw' tw'.
         find (\<lambda>w. w_id w = fromWalletId dto) (wallets s) = Some fw \<and>
         find (\<lambda>w. w_id w = toWalletId dto) (wallets s) = Some tw \<and>
         find (\<lambda>w. w_id w = fromWalletId dto) (wallets (snd (transfer e dto s))) = Some fw' \<and>
         find (\<lambda>w. w_id w = toWalletId dto) (wallets (snd (transfer e dto s))) = Some tw' \<and>
         w_version fw' = w_version fw + 1 \<and> w_version tw' = w_version tw + 1"
    if ci: "fst (checkIdempotency e (idempotencyKey dto) s) = Inr None"
      and ok: "fst (transfer e dto s) = Inr r" for r
  proof -
    from ci ok obtain fw tw where
      v: "validateTransferRequest dto = None"
      and f: "find (\<lambda>w. w_id w = fromWalletId dto) (wallets s) = Some fw"
         "find (\<lambda>w. w_id w = toWalletId dto) (wallets s) = Some tw"
      and w: "wallets (snd (transfer e dto s)) =
       map (bump (w_id tw) (w_version tw) (new_to_balance e dto tw))
         (map (bump (w_id fw) (w_version fw) (new_from_balance e dto fw)) (wallets s))"
      by (rule transfer_Inr)
    from v have ne: "fromWalletId dto \<noteq> toWalletId dto"
      by (auto simp: validateTransferRequest_def split: if_splits)
    from f have ids: "w_id fw = fromWalletId dto" "w_id tw = toWalletId dto"
      by (auto dest: find_id)
    let ?fw' = "bump (w_id tw) (w_version tw) (new_to_balance e dto tw)
                  (bump (w_id fw) (w_version fw) (new_from_balance e dto fw) fw)"
    let ?tw' = "bump (w_id tw) (w_version tw) (new_to_balance e dto tw)
                  (bump (w_id fw) (w_version fw) (new_from_balance e dto fw) tw)"
    have "find (\<lambda>w. w_id w = fromWalletId dto) (wallets (snd (transfer e dto s))) = Some ?fw'"
      "find (\<lambda>w. w_id w = toWalletId dto) (wallets (snd (transfer e dto s))) = Some ?tw'"
      unfolding w by (simp_all add: find_bump f del: map_map)
    moreover have "w_version ?fw' = w_version fw + 1" "w_version ?tw' = w_version tw + 1"
      using ne ids by (simp_all add: bump_def)
    ultimately show ?thesis using f by blast
  qed
  from a b c d m show ?thesis by blast
qed

theorem version_conflict_and_monotonicity_witness:
  "fst (executeTransfer_update env0 completed_row (request ''t1'' ''A'' ''B'' ''100.00'')
          (wallet_A\<lparr>w_version := 0\<rparr>) wallet_B state0) =
     Inl (ConflictException ''Wallet was modified by another transaction. Please retry.'') \<and>
   fst (executeTransfer env0 completed_row (request ''t1'' ''A'' ''A'' ''100.00'') state0) =
     Inl (ConflictException ''Wallet was modified by another transaction. Please retry.'') \<and>
   wallets (snd (executeTransfer env0 completed_row (request ''t1'' ''A'' ''A'' ''100.00'') state0)) =
     wallets state0 \<and>
   ledger_entries (snd (executeTransfer env0 completed_row (request ''t1'' ''A'' ''A'' ''100.00'') state0)) =
     ledger_entries state0 \<and>
   fst (transfer env0 (request ''t1'' ''A'' ''B'' ''5000.00'') state0) =
     Inl (InsufficientFunds ''1000.00'' ''5000.00'') \<and>
   wallets (snd (transfer env0 (request ''t1'' ''A'' ''B'' ''5000.00'') state0)) = wallets state0 \<and>
   (\<exists>fw' tw'.
      find (\<lambda>w. w_id w = ''A'') (wallets (snd (transfer env0 (request ''t1'' ''A'' ''B'' ''100.00'') state0))) = Some fw' \<and>
      find (\<lambda>w. w_id w = ''B'') (wallets (snd (transfer env0 (request ''t1'' ''A'' ''B'' ''100.00'') state0))) = Some tw' \<and>
      w_version fw' = w_version wallet_A + 1 \<and> w_version tw' = w_version wallet_B + 1)"
proof -
  let ?ok = "request ''t1'' ''A'' ''B'' ''100.00''"
  let ?same = "request ''t1'' ''A'' ''A'' ''100.00''"
  let ?big = "request ''t1'' ''A'' ''B'' ''5000.00''"
  let ?stale = "wallet_A\<lparr>w_version := 0\<rparr>"
  note th1 = version_conflict_and_monotonicity[of ?ok ?stale wallet_B state0 env0 completed_row
      "''A''" 1 "''0.00''"]
  note th2 = version_conflict_and_monotonicity[of ?same wallet_A wallet_A state0 env0 completed_row
      "''A''" 1 "''0.00''"]
  note th3 = version_conflict_and_monotonicity[of ?big wallet_A wallet_B state0 env0 completed_row
      "''A''" 1 "''0.00''"]
  have d: "Decimal (amount ?ok) \<noteq> None" "Decimal (w_balance ?stale) \<noteq> None"
    "Decimal (w_balance wallet_B) \<noteq> None"
    by (simp_all add: example_defs number_defs)
  have z: "\<not> (\<exists>w \<in> set (wallets state0). w_id w = w_id ?stale \<and> w_version w = w_version ?stale)"
    by (simp add: example_defs)
  from th1 d z have c1: "fst (executeTransfer_update env0 completed_row ?ok ?stale wallet_B state0) =
     Inl (ConflictException ''Wallet was modified by another transaction. Please retry.'')"
    by blast
  have x: "fst (executeTransfer env0 completed_row ?same state0) =
     Inl (ConflictException ''Wallet was modified by another transaction. Please retry.'')"
    by (simp add: service_defs number_defs example_defs Let_def)
  with th2 have c2: "wallets (snd (executeTransfer env0 completed_row ?same state0)) = wallets state0"
    "ledger_entries (snd (executeTransfer env0 completed_row ?same state0)) = ledger_entries state0"
    by blast+
  have y: "fst (transfer env0 ?big state0) = Inl (InsufficientFunds ''1000.00'' ''5000.00'')"
    by (simp add: service_defs number_defs example_defs Let_def)
  with th3 have c3: "wallets (snd (transfer env0 ?big state0)) = wallets state0"
    by blast
  have ci: "fst (checkIdempotency env0 (idempotencyKey ?ok) state0) = Inr None"
    by (simp add: service_defs example_defs)
  have ok: "fst (transfer env0 ?ok state0) = Inr result1"
    by (simp add: first_transfer)
  from th1 ci ok obtain fw tw fw' tw' where
    f: "find (\<lambda>w. w_id w = fromWalletId ?ok) (wallets state0) = Some fw"
       "find (\<lambda>w. w_id w = toWalletId ?ok) (wallets state0) = Some tw"
       "find (\<lambda>w. w_id w = fromWalletId ?ok) (wallets (snd (transfer env0 ?ok state0))) = Some fw'"
       "find (\<lambda>w. w_id w = toWalletId ?ok) (wallets (snd (transfer env0 ?ok state0))) = Some tw'"
       "w_version fw' = w_version fw + 1" "w_version tw' = w_version tw + 1"
    by blast
  have "find (\<lambda>w. w_id w = fromWalletId ?ok) (wallets state0) = Some wallet_A"
    "find (\<lambda>w. w_id w = toWalletId ?ok) (wallets state0) = Some wallet_B"
    by (simp_all add: example_defs)
  with f(1,2) have "fw = wallet_A" "tw = wallet_B" by simp_all
  with f have c4: "\<exists>fw' tw'.
      find (\<lambda>w. w_id w = ''A'') (wallets (snd (transfer env0 ?ok state0))) = Some fw' \<and>
      find (\<lambda>w. w_id w = ''B'') (wallets (snd (transfer env0 ?ok state0))) = Some tw' \<and>
      w_version fw' = w_version wallet_A + 1 \<and> w_version tw' = w_version wallet_B + 1"
    by (simp add: request_def)
  from c1 x c2 y c3 c4 show ?thesis by blast
qed

section \<open>C7: the pre-validation and the idempotency check\<close>

text \<open>
  C7, as the code has it. \<open>transfer\<close> checks the idempotency key before it
  validates the request. Take an invalid request: source equal to destination,
  or an amount written with two decimal places (a money string, or a money
  string after a minus sign) whose value is not positive or is above
  1000000000. When its key has no cached result and no completed transaction
  log, \<open>transfer\<close> reads the result cache, looks the key up in the
  transaction log, and then raises the \<open>BadRequestException\<close> of the
  validation: these two reads are the only input and output, no lease is
  taken, no row is inserted and nothing in the database or in Redis changes.
  The amounts are given by their digits (\<open>is_money\<close>, \<open>cents\<close>): on
  them the two guards of \<open>validateTransferRequest\<close> come out on doubles
  as they do on the exact values.
\<close>

theorem invalid_request_rejected_after_idempotency_check:
  assumes "fromWalletId dto = toWalletId dto \<or>
           (is_money (amount dto) \<and>
              (cents (amount dto) = 0 \<or> 100000000000 < cents (amount dto))) \<or>
           (\<exists>m. amount dto = CHR ''-'' # m \<and> is_money m)"
    and "fst (checkIdempotency e (idempotencyKey dto) s) = Inr None"
  shows "\<exists>m. transfer e dto s =
           (Inl (BadRequestException m),
            s\<lparr>trace := trace s @ [REDIS_GET (''idempotency:'' @ idempotencyKey dto),
                                   LOG_FIND_ONE (idempotencyKey dto)]\<rparr>)"
proof -
  let ?k = "idempotencyKey dto"
  from assms(1) have g: "fromWalletId dto = toWalletId dto \<or>
           num_le (parseFloat (amount dto)) (Num 0) \<or>
           num_gt (parseFloat (amount dto)) (Num 1000000000)"
  proof (elim disjE exE conjE)
    assume "fromWalletId dto = toWalletId dto"
    then show ?thesis by simp
  next
    assume "is_money (amount dto)" "cents (amount dto) = 0"
    then show ?thesis by (simp add: parseFloat_money)
  next
    assume m: "is_money (amount dto)" and c: "100000000000 < cents (amount dto)"
    from c have "(100000000000 :: rat) < of_nat (cents (amount dto))"
      by (metis of_nat_less_iff of_nat_numeral)
    then have "(1000000000 :: rat) < of_nat (cents (amount dto)) / 100" by simp
    with m show ?thesis by (simp add: parseFloat_money num_gt_def)
  next
    fix m assume "amount dto = CHR ''-'' # m" "is_money m"
    then show ?thesis by (simp add: parseFloat_minus_money)
  qed
  then have "\<exists>m. validateTransferRequest dto = Some (BadRequestException m)"
    by (auto simp: validateTransferRequest_def)
  then obtain m where m: "validateTransferRequest dto = Some (BadRequestException m)" ..
  from checkIdempotency_None(1)[OF assms(2)] assms(2)
  have "checkIdempotency e ?k s =
          (Inr None, emit (LOG_FIND_ONE ?k) (emit (REDIS_GET (''idempotency:'' @ ?k)) s))"
    by (cases "checkIdempotency e ?k s") simp
  then have "transfer e dto s =
      (Inl (BadRequestException m),
       emit (LOG_FIND_ONE ?k) (emit (REDIS_GET (''idempotency:'' @ ?k)) s))"
    by (simp add: transfer_def m)
  then show ?thesis by (simp add: emit_def)
qed

theorem invalid_request_rejected_after_idempotency_check_witness:
  "transfer env0 (request ''t6'' ''A'' ''A'' ''1.00'') state0 =
     (Inl (BadRequestException ''Cannot transfer to the same wallet''),
      state0\<lparr>trace := [REDIS_GET ''idempotency:t6'', LOG_FIND_ONE ''t6'']\<rparr>) \<and>
   transfer env0 (request ''t7'' ''A'' ''B'' ''1000000000.01'') state0 =
     (Inl (BadRequestException ''Amount exceeds maximum allowed value''),
      state0\<lparr>trace := [REDIS_GET ''idempotency:t7'', LOG_FIND_ONE ''t7'']\<rparr>) \<and>
   transfer env0 (request ''t8'' ''A'' ''B'' ''-5.00'') state0 =
     (Inl (BadRequestException ''Amount must be greater than 0''),
      state0\<lparr>trace := [REDIS_GET ''idempotency:t8'', LOG_FIND_ONE ''t8'']\<rparr>)"
proof -
  let ?a = "request ''t6'' ''A'' ''A'' ''1.00''"
  let ?b = "request ''t7'' ''A'' ''B'' ''1000000000.01''"
  let ?c = "request ''t8'' ''A'' ''B'' ''-5.00''"
  have money: "is_money ''1000000000.01''" "cents ''1000000000.01'' = 100000000001"
    "is_money ''5.00''"
    by (simp_all add: is_money_def cents_def is_digit_def digits_val_def digit_val_def)
  have va: "fromWalletId ?a = toWalletId ?a \<or>
           (is_money (amount ?a) \<and> (cents (amount ?a) = 0 \<or> 100000000000 < cents (amount ?a))) \<or>
           (\<exists>m. amount ?a = CHR ''-'' # m \<and> is_money m)"
    by (simp add: request_def)
  have vb: "fromWalletId ?b = toWalletId ?b \<or>
           (is_money (amount ?b) \<and> (cents (amount ?b) = 0 \<or> 100000000000 < cents (amount ?b))) \<or>
           (\<exists>m. amount ?b = CHR ''-'' # m \<and> is_money m)"
    by (simp add: request_def money)
  have vc: "fromWalletId ?c = toWalletId ?c \<or>
           (is_money (amount ?c) \<and> (cents (amount ?c) = 0 \<or> 100000000000 < cents (amount ?c))) \<or>
           (\<exists>m. amount ?c = CHR ''-'' # m \<and> is_money m)"
    by (simp add: request_def money)
  have ca: "fst (checkIdempotency env0 (idempotencyKey ?a) state0) = Inr None"
    and cb: "fst (checkIdempotency env0 (idempotencyKey ?b) state0) = Inr None"
    and cc: "fst (checkIdempotency env0 (idempotencyKey ?c) state0) = Inr None"
    by (simp_all add: service_defs example_defs)
  from invalid_request_rejected_after_idempotency_check[OF va ca]
  obtain ma where ta: "transfer env0 ?a state0 =
           (Inl (BadRequestException ma),
            state0\<lparr>trace := trace state0 @ [REDIS_GET (''idempotency:'' @ idempotencyKey ?a),
                                   LOG_FIND_ONE (idempotencyKey ?a)]\<rparr>)"
    by blast
  from invalid_request_rejected_after_idempotency_check[OF vb cb]
  obtain mb where tb: "transfer env0 ?b state0 =
           (Inl (BadRequestException mb),
            state0\<lparr>trace := trace state0 @ [REDIS_GET (''idempotency:'' @ idempotencyKey ?b),
                                   LOG_FIND_ONE (idempotencyKey ?b)]\<rparr>)"
    by blast
  from invalid_request_rejected_after_idempotency_check[OF vc cc]
  obtain mc where tc: "transfer env0 ?c state0 =
           (Inl (BadRequestException mc),
            state0\<lparr>trace := trace state0 @ [REDIS_GET (''idempotency:'' @ idempotencyKey ?c),
                                   LOG_FIND_ONE (idempotencyKey ?c)]\<rparr>)"
    by blast
  have "fst (transfer env0 ?a state0) = Inl (BadRequestException ''Cannot transfer to the same wallet'')"
    "fst (transfer env0 ?b state0) = Inl (BadRequestException ''Amount exceeds maximum allowed value'')"
    "fst (transfer env0 ?c state0) = Inl (BadRequestException ''Amount must be greater than 0'')"
    by (simp_all add: service_defs number_defs example_defs Let_def)
  with ta tb tc have "ma = ''Cannot transfer to the same wallet''"
    "mb = ''Amount exceeds maximum allowed value''" "mc = ''Amount must be greater than 0''"
    by simp_all
  with ta tb tc show ?thesis by (simp add: request_def state0_def)
qed

text \<open>
  C7, as the specification states it, fails: the rejection of an invalid
  request comes after input and output. On the example database the request
  of scenario S6 (from \<open>A\<close> to \<open>A\<close>) is rejected only after the
  result cache was read and the transaction log was queried; and once a
  transfer with the key \<open>t1\<close> has completed, an invalid request with that
  key is not rejected at all: it gets the cached result of the completed
  transfer.
\<close>

theorem invalid_request_reads_cache_first:
  "trace (snd (transfer env0 (request ''t6'' ''A'' ''A'' ''1.00'') state0)) =
     [REDIS_GET ''idempotency:t6'', LOG_FIND_ONE ''t6''] \<and>
   validateTransferRequest (request ''t1'' ''A'' ''A'' ''1.00'') =
     Some (BadRequestException ''Cannot transfer to the same wallet'') \<and>
   fst (transfer env0 (request ''t1'' ''A'' ''A'' ''1.00'')
          (snd (transfer env0 (request ''t1'' ''A'' ''B'' ''100.00'') state0))) =
     Inr \<lparr>success = True, transactionId = 0, status = COMPLETED,
           fromWallet = \<lparr>wb_id = ''A'', newBalance = ''900.00''\<rparr>,
           toWallet = \<lparr>wb_id = ''B'', newBalance = ''600.00''\<rparr>,
           timestamp = 1002\<rparr>"
  by (simp add: service_defs number_defs example_defs Let_def)

section \<open>C8: the ledger append\<close>



section \<open>C9: exact new balances\<close>

text \<open>
  C9. The new balances are exact at scale 2. Let \<open>transfer\<close> execute a
  request and succeed, and let the source and the destination row be \<open>fw\<close>
  and \<open>tw\<close>. When the two balances and the amount are money strings (the
  balances below the 20 digits of the column, the new destination balance
  too), the amount is at most the source balance, and the result carries as
  new balances the money strings of the source balance minus the amount and
  of the destination balance plus the amount, in hundredths, with no error of
  any size and for either rounding mode. For the balances 1000.00 and 500.00
  and the amount 99.99 the result carries exactly 900.01 and 599.99.
\<close>

theorem new_balances_exact:
  assumes "fst (checkIdempotency e (idempotencyKey dto) s) = Inr None"
    and "fst (transfer e dto s) = Inr r"
    and "find (\<lambda>w. w_id w = fromWalletId dto) (wallets s) = Some fw"
    and "find (\<lambda>w. w_id w = toWalletId dto) (wallets s) = Some tw"
  shows "(is_money (w_balance fw) \<and> is_money (w_balance tw) \<and> is_money (amount dto) \<and>
          cents (w_balance fw) < 10 ^ 20 \<and>
          cents (w_balance tw) + cents (amount dto) < 10 ^ 20 \<longrightarrow>
            cents (amount dto) \<le> cents (w_balance fw) \<and>
            newBalance (fromWallet r) =
              money_str (cents (w_balance fw) - cents (amount dto)) \<and>
            newBalance (toWallet r) =
              money_str (cents (w_balance tw) + cents (amount dto))) \<and>
         (w_balance fw = ''1000.00'' \<and> w_balance tw = ''500.00'' \<and> amount dto = ''99.99'' \<longrightarrow>
            newBalance (fromWallet r) = ''900.01'' \<and> newBalance (toWallet r) = ''599.99'')"
proof -
  from assms(1,2) obtain fw' tw' where
    f: "find (\<lambda>w. w_id w = fromWalletId dto) (wallets s) = Some fw'"
       "find (\<lambda>w. w_id w = toWalletId dto) (wallets s) = Some tw'"
    and h: "hasAvailableBalance fw' (amount dto)"
    and r: "r = \<lparr>success = True, transactionId = next_id s, status = COMPLETED,
          fromWallet = \<lparr>wb_id = w_id fw', newBalance = new_from_balance e dto fw'\<rparr>,
          toWallet = \<lparr>wb_id = w_id tw', newBalance = new_to_balance e dto tw'\<rparr>,
          timestamp = result_date e\<rparr>"
    by (rule transfer_Inr)
  from f assms(3,4) have eq: "fw' = fw" "tw' = tw" by simp_all
  have g: "cents (amount dto) \<le> cents (w_balance fw) \<and>
            newBalance (fromWallet r) =
              money_str (cents (w_balance fw) - cents (amount dto)) \<and>
            newBalance (toWallet r) =
              money_str (cents (w_balance tw) + cents (amount dto))"
    if m: "is_money (w_balance fw)" "is_money (w_balance tw)" "is_money (amount dto)"
      and b: "cents (w_balance fw) < 10 ^ 20"
        "cents (w_balance tw) + cents (amount dto) < 10 ^ 20"
  proof -
    from h eq m have le: "cents (amount dto) \<le> cents (w_balance fw)"
      by (simp add: hasAvailableBalance_money)
    from new_balances_money[OF m le b, of e] le show ?thesis
      by (simp add: r eq)
  qed
  have "newBalance (fromWallet r) = ''900.01'' \<and> newBalance (toWallet r) = ''599.99''"
    if x: "w_balance fw = ''1000.00''" "w_balance tw = ''500.00''" "amount dto = ''99.99''"
  proof -
    have "is_money (w_balance fw)" "is_money (w_balance tw)" "is_money (amount dto)"
      "cents (w_balance fw) < 10 ^ 20" "cents (w_balance tw) + cents (amount dto) < 10 ^ 20"
      unfolding x by (simp_all add: money_examples)
    from g[OF this] show ?thesis unfolding x by (simp add: money_examples)
  qed
  with g show ?thesis by blast
qed

theorem new_balances_exact_witness:
  "fst (transfer env0 (request ''t9'' ''A'' ''B'' ''99.99'') state0) =
     Inr \<lparr>success = True, transactionId = 0, status = COMPLETED,
           fromWallet = \<lparr>wb_id = ''A'', newBalance = ''900.01''\<rparr>,
           toWallet = \<lparr>wb_id = ''B'', newBalance = ''599.99''\<rparr>,
           timestamp = 1002\<rparr> \<and>
   newBalance (fromWallet (projr (fst (transfer env0 (request ''t9'' ''A'' ''B'' ''99.99'') state0)))) =
     money_str (cents ''1000.00'' - cents ''99.99'') \<and>
   newBalance (toWallet (projr (fst (transfer env0 (request ''t9'' ''A'' ''B'' ''99.99'') state0)))) =
     money_str (cents ''500.00'' + cents ''99.99'')"
proof -
  let ?dto = "request ''t9'' ''A'' ''B'' ''99.99''"
  let ?r = "\<lparr>success = True, transactionId = 0, status = COMPLETED,
           fromWallet = \<lparr>wb_id = ''A'', newBalance = ''900.01''\<rparr>,
           toWallet = \<lparr>wb_id = ''B'', newBalance = ''599.99''\<rparr>,
           timestamp = 1002\<rparr>"
  have a: "fst (checkIdempotency env0 (idempotencyKey ?dto) state0) = Inr None"
    by (simp add: service_defs example_defs)
  have b: "fst (transfer env0 ?dto state0) = Inr ?r"
    by (simp add: service_defs number_defs example_defs Let_def)
  have c: "find (\<lambda>w. w_id w = fromWalletId ?dto) (wallets state0) = Some wallet_A"
    "find (\<lambda>w. w_id w = toWalletId ?dto) (wallets state0) = Some wallet_B"
    by (simp_all add: example_defs)
  have d: "w_balance wallet_A = ''1000.00''" "w_balance wallet_B = ''500.00''"
    "amount ?dto = ''99.99''"
    by (simp_all add: example_defs)
  from new_balances_exact[OF a b c] d
  have "newBalance (fromWallet ?r) = money_str (cents ''1000.00'' - cents ''99.99'') \<and>
        newBalance (toWallet ?r) = money_str (cents ''500.00'' + cents ''99.99'')"
    by (simp add: money_examples)
  with b show ?thesis by simp
qed

section \<open>C10: an amount that is not a number\<close>

text \<open>
  C10. The pre-validation does not reject an amount that is not a number. When
  \<open>parseFloat\<close> of the amount string is \<open>NaN\<close> (and the two wallets differ),
  the guard \<open>amount \<le> 0\<close> and the guard \<open>amount > 1000000000\<close> are both
  false and \<open>validateTransferRequest\<close> raises nothing; when moreover the key
  has no cached or completed result and the lease is free, \<open>transfer\<close> goes
  on to the durable-intent step: after the two reads of the idempotency check
  it takes the lease and issues the insert of the transaction log with that
  amount.
\<close>

theorem nan_amount_passes_validation:
  assumes "parseFloat (amount dto) = NaN"
    and "fromWalletId dto \<noteq> toWalletId dto"
  shows "\<not> num_le (parseFloat (amount dto)) (Num 0) \<and>
         \<not> num_gt (parseFloat (amount dto)) (Num 1000000000) \<and>
         validateTransferRequest dto = None \<and>
         (fst (checkIdempotency e (idempotencyKey dto) s) = Inr None \<and>
          fst (acquireLock e (idempotencyKey dto) s) \<longrightarrow>
            (\<exists>tr. trace (snd (transfer e dto s)) =
               trace s @ [REDIS_GET (''idempotency:'' @ idempotencyKey dto),
                          LOG_FIND_ONE (idempotencyKey dto),
                          REDIS_SET_NX (''lock:'' @ idempotencyKey dto),
                          LOG_INSERT (idempotencyKey dto) (amount dto)] @ tr))"
proof -
  let ?k = "idempotencyKey dto"
  have g: "\<not> num_le (parseFloat (amount dto)) (Num 0)"
    "\<not> num_gt (parseFloat (amount dto)) (Num 1000000000)"
    using assms(1) by (simp_all add: num_gt_def)
  with assms(2) have v: "validateTransferRequest dto = None"
    by (simp add: validateTransferRequest_def)
  have "\<exists>tr. trace (snd (transfer e dto s)) =
               trace s @ [REDIS_GET (''idempotency:'' @ ?k), LOG_FIND_ONE ?k,
                          REDIS_SET_NX (''lock:'' @ ?k), LOG_INSERT ?k (amount dto)] @ tr"
    if c: "fst (checkIdempotency e ?k s) = Inr None" and l: "fst (acquireLock e ?k s)"
  proof -
    let ?s1 = "emit (LOG_FIND_ONE ?k) (emit (REDIS_GET (''idempotency:'' @ ?k)) s)"
    from checkIdempotency_None(1)[OF c] c
    have ci: "checkIdempotency e ?k s = (Inr None, ?s1)"
      by (cases "checkIdempotency e ?k s") simp
    have t: "transfer e dto s = transfer_protocol e dto ?s1"
      by (simp add: transfer_def ci v)
    from l have "fst (acquireLock e ?k ?s1)" by simp
    from transfer_protocol_trace[OF this] show ?thesis
      unfolding t by auto
  qed
  with g v show ?thesis by blast
qed

theorem nan_amount_passes_validation_witness:
  "parseFloat ''abc'' = NaN \<and>
   validateTransferRequest (request ''t1'' ''A'' ''B'' ''abc'') = None \<and>
   (\<exists>tr. trace (snd (transfer env0 (request ''t1'' ''A'' ''B'' ''abc'') state0)) =
      [REDIS_GET ''idempotency:t1'', LOG_FIND_ONE ''t1'', REDIS_SET_NX ''lock:t1'',
       LOG_INSERT ''t1'' ''abc''] @ tr)"
proof -
  have n: "parseFloat (amount (request ''t1'' ''A'' ''B'' ''abc'')) = NaN"
    by (simp add: request_def number_defs)
  have d: "fromWalletId (request ''t1'' ''A'' ''B'' ''abc'') \<noteq> toWalletId (request ''t1'' ''A'' ''B'' ''abc'')"
    by (simp add: request_def)
  have c: "fst (checkIdempotency env0 (idempotencyKey (request ''t1'' ''A'' ''B'' ''abc'')) state0) = Inr None"
    by (simp add: service_defs example_defs)
  have l: "fst (acquireLock env0 (idempotencyKey (request ''t1'' ''A'' ''B'' ''abc'')) state0)"
    by (simp add: service_defs example_defs)
  from nan_amount_passes_validation[OF n d, of env0 state0] c l n
  show ?thesis by (simp add: request_def state0_def)
qed

end
